theory Spec2Isabelle
  imports Main "HOL-Library.Word"
begin

section \<open>Paren: the language kernel of libparen\<close>

text \<open>
  A shallow embedding of the kernel of the Paren interpreter: the tokenizer, the symbol
  table, the environment chain, the compile pass with its macro expander, the evaluator
  and the primitives that the verified properties speak about.

  Conventions.
  \<^item> A \<open>std::shared_ptr<Node>\<close> is an index into the node store of the state; a
    \<open>std::shared_ptr<environment>\<close> is an index into the frame store. Creating an object
    with \<open>std::make_shared\<close> appends to the store.
  \<^item> Every exception and every use of undefined behaviour in the C++ text is a value of
    type \<open>error\<close>; a function that can fail returns \<open>error + 'a\<close>.
  \<^item> \<open>int\<close> is a 32-bit word that wraps; \<open>size_t\<close> is a natural number, reduced modulo
    \<open>2 ^ 64\<close> where the source subtracts.
  \<^item> A \<open>double\<close> is carried as its 64-bit pattern; IEEE-754 arithmetic and the C library
    conversions are supplied by a record of host functions and are never interpreted.
\<close>

datatype error =
    Out_of_range          \<comment> \<open>\<open>std::out_of_range\<close> thrown by \<open>at\<close>\<close>
  | UB_index              \<comment> \<open>\<open>operator[]\<close>, \<open>back\<close> or \<open>pop_back\<close> outside the container\<close>
  | UB_null               \<comment> \<open>dereference of an empty \<open>shared_ptr\<close>\<close>
  | UB_union              \<comment> \<open>read of a union member that is not the active one\<close>
  | UB_arith              \<comment> \<open>integer division by zero or \<open>INT_MIN / -1\<close>\<close>
  | Unmodelled            \<comment> \<open>a primitive outside the embedding (I/O, threads, libm)\<close>
  | Assertion_failed      \<comment> \<open>a failed \<open>assert\<close>\<close>
  | Out_of_fuel           \<comment> \<open>the evaluation did not finish within the given depth\<close>

subsection \<open>Symbol table\<close>

text \<open>
  \<open>symcode\<close> is a \<open>std::map<std::string, size_t>\<close> that only ever grows by fresh keys;
  it is kept as an association list so that \<open>size()\<close> is its length. \<open>symname\<close> is the
  \<open>std::vector<std::string>\<close> of names.
\<close>

record symtab =
  symcode :: "(string \<times> nat) list"
  symname :: "string list"

definition empty_symtab :: symtab where
  "empty_symtab = \<lparr>symcode = [], symname = []\<rparr>"

definition ToCode :: "string \<Rightarrow> symtab \<Rightarrow> nat \<times> symtab" where
  "ToCode name t =
     (case map_of (symcode t) name of
        Some found \<Rightarrow> (found, t)
      | None \<Rightarrow>
          (let r = length (symcode t)
           in (r, t\<lparr>symcode := symcode t @ [(name, r)], symname := symname t @ [name]\<rparr>)))"

text \<open>Interning a sequence of names, one call of \<open>ToCode\<close> after the other.\<close>

fun intern_all :: "string list \<Rightarrow> symtab \<Rightarrow> symtab" where
  "intern_all [] t = t"
| "intern_all (n # ns) t = intern_all ns (snd (ToCode n t))"

text \<open>The distinct names of a sequence, in the order of their first occurrence.\<close>

fun first_occurrences :: "string list \<Rightarrow> string list" where
  "first_occurrences [] = []"
| "first_occurrences (n # ns) = n # filter (\<lambda>m. m \<noteq> n) (first_occurrences ns)"

subsection \<open>Tokenizer\<close>

record tokenizer =
  ret :: "string list"
  acc :: string
  unclosed :: int

definition emit :: "tokenizer \<Rightarrow> tokenizer" where
  "emit t = (if length (acc t) > 0 then t\<lparr>ret := ret t @ [acc t], acc := []\<rparr> else t)"

text \<open>\<open>s.at(pos)\<close> throws outside the string; \<open>s[pos]\<close> is only used under a guard.\<close>

definition at :: "string \<Rightarrow> nat \<Rightarrow> error + char" where
  "at s pos = (if pos < length s then Inr (s ! pos) else Inl Out_of_range)"

text \<open>\<open>size_t last = s.length() - 1\<close>: the subtraction is unsigned and wraps at zero.\<close>

definition last_pos :: "string \<Rightarrow> nat" where
  "last_pos s = (length s + 2 ^ 64 - 1) mod 2 ^ 64"

text \<open>The comment loop \<open>do pos++; while (pos <= last && s.at(pos) != '\n')\<close>,
  entered with the incremented position.\<close>

function skip_comment :: "string \<Rightarrow> nat \<Rightarrow> error + nat" where
  "skip_comment s pos =
     (if pos \<le> last_pos s then
        (case at s pos of
           Inl e \<Rightarrow> Inl e
         | Inr c \<Rightarrow> if c \<noteq> CHR 0x0A then skip_comment s (pos + 1) else Inr pos)
      else Inr pos)"
  by pat_completeness auto
termination
  by (relation "measure (\<lambda>(s, pos). length s - pos)") (auto simp: at_def split: if_splits)

text \<open>The body of a string literal, entered behind the opening quote.\<close>

definition unescape :: "char \<Rightarrow> char" where
  "unescape next =
     (if next = CHR ''r'' then CHR 0x0D
      else if next = CHR ''n'' then CHR 0x0A
      else if next = CHR ''t'' then CHR 0x09
      else next)"

function read_string :: "string \<Rightarrow> nat \<Rightarrow> tokenizer \<Rightarrow> error + (nat \<times> tokenizer)" where
  "read_string s pos t =
     (if pos \<le> last_pos s then
        (case at s pos of
           Inl e \<Rightarrow> Inl e
         | Inr c \<Rightarrow>
             if c = CHR 0x22 then Inr (pos, t\<lparr>unclosed := unclosed t - 1\<rparr>)
             else if c = CHR 0x5C then
               (case at s (pos + 1) of
                  Inl e \<Rightarrow> Inl e
                | Inr next \<Rightarrow> read_string s (pos + 2) (t\<lparr>acc := acc t @ [unescape next]\<rparr>))
             else read_string s (pos + 1) (t\<lparr>acc := acc t @ [c]\<rparr>))
      else Inr (pos, t))"
  by pat_completeness auto
termination
  by (relation "measure (\<lambda>(s, pos, t). length s - pos)") (auto simp: at_def split: if_splits)

lemma skip_comment_ge: "skip_comment s pos = Inr pos' \<Longrightarrow> pos \<le> pos'"
proof (induction s pos rule: skip_comment.induct)
  case (1 s pos)
  show ?case
  proof (cases "pos \<le> last_pos s")
    case False
    with "1.prems" show ?thesis by simp
  next
    case True
    show ?thesis
    proof (cases "at s pos")
      case (Inl e)
      with True "1.prems" show ?thesis by simp
    next
      case (Inr c)
      show ?thesis
      proof (cases "c = CHR 0x0A")
        case True
        with \<open>pos \<le> last_pos s\<close> Inr "1.prems" show ?thesis by simp
      next
        case False
        with \<open>pos \<le> last_pos s\<close> Inr "1.prems" have "skip_comment s (pos + 1) = Inr pos'"
          by simp
        with "1.IH" [OF \<open>pos \<le> last_pos s\<close> Inr False] show ?thesis by simp
      qed
    qed
  qed
qed

lemma read_string_ge: "read_string s pos t = Inr (pos', t') \<Longrightarrow> pos \<le> pos'"
proof (induction s pos t rule: read_string.induct)
  case (1 s pos t)
  show ?case
  proof (cases "pos \<le> last_pos s")
    case False
    with "1.prems" show ?thesis by simp
  next
    case le: True
    show ?thesis
    proof (cases "at s pos")
      case (Inl e)
      with le "1.prems" show ?thesis by simp
    next
      case c: (Inr c)
      consider (quote) "c = CHR 0x22" | (esc) "c \<noteq> CHR 0x22" "c = CHR 0x5C"
        | (other) "c \<noteq> CHR 0x22" "c \<noteq> CHR 0x5C"
        by blast
      then show ?thesis
      proof cases
        case quote
        with le c "1.prems" show ?thesis by simp
      next
        case esc
        show ?thesis
        proof (cases "at s (pos + 1)")
          case (Inl e)
          with le c esc "1.prems" show ?thesis by simp
        next
          case n: (Inr nx)
          with le c esc "1.prems"
          have "read_string s (pos + 2) (t\<lparr>acc := acc t @ [unescape nx]\<rparr>) = Inr (pos', t')"
            by simp
          with "1.IH"(1) [OF le c esc(1) esc(2) n] show ?thesis by simp
        qed
      next
        case other
        with le c "1.prems"
        have "read_string s (pos + 1) (t\<lparr>acc := acc t @ [c]\<rparr>) = Inr (pos', t')"
          by simp
        with "1.IH"(2) [OF le c other] show ?thesis by simp
      qed
    qed
  qed
qed

definition is_space :: "char \<Rightarrow> bool" where
  "is_space c \<longleftrightarrow> c = CHR '' '' \<or> c = CHR 0x09 \<or> c = CHR 0x0D \<or> c = CHR 0x0A"

text \<open>The \<open>for\<close> loop of \<open>Tokenizer::tokenize\<close>; each branch ends with the loop's \<open>pos++\<close>.\<close>

function tokenize_loop :: "string \<Rightarrow> nat \<Rightarrow> tokenizer \<Rightarrow> error + tokenizer" where
  "tokenize_loop s pos t =
     (if pos \<le> last_pos s then
        (case at s pos of
           Inl e \<Rightarrow> Inl e
         | Inr c \<Rightarrow>
             if is_space c then tokenize_loop s (pos + 1) (emit t)
             else if c = CHR '';'' \<or> (pos < last_pos s \<and> c = CHR ''#'' \<and> s ! (pos + 1) = CHR ''!'') then
               (case skip_comment s (pos + 1) of
                  Inl e \<Rightarrow> Inl e
                | Inr pos' \<Rightarrow> tokenize_loop s (pos' + 1) (emit t))
             else if c = CHR 0x22 then
               (case read_string s (pos + 1)
                       ((emit (t\<lparr>unclosed := unclosed t + 1\<rparr>))\<lparr>acc := [CHR 0x22]\<rparr>) of
                  Inl e \<Rightarrow> Inl e
                | Inr (pos', t') \<Rightarrow> tokenize_loop s (pos' + 1) (emit t'))
             else if c = CHR ''('' then
               tokenize_loop s (pos + 1)
                 (emit ((emit (t\<lparr>unclosed := unclosed t + 1\<rparr>))\<lparr>acc := [c]\<rparr>))
             else if c = CHR '')'' then
               tokenize_loop s (pos + 1)
                 (emit ((emit (t\<lparr>unclosed := unclosed t - 1\<rparr>))\<lparr>acc := [c]\<rparr>))
             else tokenize_loop s (pos + 1) (t\<lparr>acc := acc t @ [c]\<rparr>))
      else Inr t)"
  by pat_completeness auto
termination
proof (relation "measure (\<lambda>(s, pos, t). length s - pos)", goal_cases)
  case 1
  show ?case by simp
next
  case (2 s pos t c)
  then show ?case by (auto simp: at_def split: if_splits)
next
  case (3 s pos t c pos')
  from 3 have "pos < length s" by (auto simp: at_def split: if_splits)
  moreover from 3 have "pos + 1 \<le> pos'" using skip_comment_ge by blast
  ultimately show ?case by simp
next
  case (4 s pos t c x pos' t')
  from 4 have "pos < length s" by (auto simp: at_def split: if_splits)
  moreover from 4 have "pos + 1 \<le> pos'" using read_string_ge by metis
  ultimately show ?case by simp
next
  case (5 s pos t c)
  then show ?case by (auto simp: at_def split: if_splits)
next
  case (6 s pos t c)
  then show ?case by (auto simp: at_def split: if_splits)
next
  case (7 s pos t c)
  then show ?case by (auto simp: at_def split: if_splits)
qed

definition tokenize :: "string \<Rightarrow> error + string list" where
  "tokenize s =
     (case tokenize_loop s 0 \<lparr>ret = [], acc = [], unclosed = 0\<rparr> of
        Inl e \<Rightarrow> Inl e
      | Inr t \<Rightarrow> Inr (ret (emit t)))"

subsection \<open>Values\<close>

text \<open>
  \<open>struct Node\<close>: a type tag, an anonymous union, and the members \<open>v_string\<close>,
  \<open>v_list\<close> and \<open>outer_env\<close> that every node carries. The union is modelled by its
  active member; with no explicit initializer it holds \<open>p_thread = nullptr\<close>.
\<close>

type_synonym snode = nat
type_synonym senvironment = nat
type_synonym double = "64 word"

datatype node_type =
  T_NIL | T_INT | T_DOUBLE | T_BOOL | T_STRING | T_SYMBOL | T_LIST | T_SPECIAL | T_BUILTIN
  | T_FN | T_THREAD

text \<open>The host functions a \<open>builtin\<close> pointer can point to. Those outside the embedding
  are kept by name.\<close>

datatype builtin =
    Ptr_special_def | Ptr_special_set | Ptr_special_if | Ptr_special_fn | Ptr_special_begin
  | Ptr_special_while | Ptr_special_quote | Ptr_special_andand | Ptr_special_oror
  | Ptr_builtin_eval | Ptr_builtin_plus | Ptr_builtin_minus | Ptr_builtin_mul | Ptr_builtin_div
  | Ptr_builtin_lt | Ptr_builtin_percent | Ptr_builtin_plusplus | Ptr_builtin_minusminus
  | Ptr_builtin_eqeq | Ptr_builtin_not | Ptr_builtin_strlen | Ptr_builtin_int
  | Ptr_builtin_double | Ptr_builtin_type | Ptr_builtin_list | Ptr_builtin_apply
  | Ptr_builtin_fold | Ptr_builtin_map | Ptr_builtin_filter | Ptr_builtin_push_backd
  | Ptr_builtin_pop_backd | Ptr_builtin_nth | Ptr_builtin_length | Ptr_builtin_cons
  | Ptr_other string

datatype union_member =
    U_p_thread_null
  | U_v_int "32 word"
  | U_code nat
  | U_v_double double
  | U_v_bool bool
  | U_v_builtin builtin

record Node =
  type :: node_type
  u :: union_member
  v_string :: string
  v_list :: "snode list"
  outer_env :: "senvironment option"

definition Node_nil :: Node where
  "Node_nil = \<lparr>type = T_NIL, u = U_p_thread_null, v_string = [], v_list = [], outer_env = None\<rparr>"

definition Node_int :: "32 word \<Rightarrow> Node" where
  "Node_int a = Node_nil\<lparr>type := T_INT, u := U_v_int a\<rparr>"

definition Node_double :: "double \<Rightarrow> Node" where
  "Node_double a = Node_nil\<lparr>type := T_DOUBLE, u := U_v_double a\<rparr>"

definition Node_bool :: "bool \<Rightarrow> Node" where
  "Node_bool a = Node_nil\<lparr>type := T_BOOL, u := U_v_bool a\<rparr>"

definition Node_string :: "string \<Rightarrow> Node" where
  "Node_string a = Node_nil\<lparr>type := T_STRING, v_string := a\<rparr>"

definition Node_list :: "snode list \<Rightarrow> Node" where
  "Node_list a = Node_nil\<lparr>type := T_LIST, v_list := a\<rparr>"

definition Node_builtin :: "builtin \<Rightarrow> Node" where
  "Node_builtin a = Node_nil\<lparr>type := T_BUILTIN, u := U_v_builtin a\<rparr>"

definition make_special :: "builtin \<Rightarrow> Node" where
  "make_special a = Node_nil\<lparr>type := T_SPECIAL, u := U_v_builtin a\<rparr>"

text \<open>The symbol node that \<open>Parser::parse\<close> builds.\<close>

definition Node_symbol :: "string \<Rightarrow> nat \<Rightarrow> Node" where
  "Node_symbol tok c = Node_nil\<lparr>type := T_SYMBOL, v_string := tok, u := U_code c\<rparr>"

text \<open>Reading a member of the union.\<close>

definition v_int :: "Node \<Rightarrow> error + 32 word" where
  "v_int n = (case u n of U_v_int a \<Rightarrow> Inr a | _ \<Rightarrow> Inl UB_union)"

definition v_double :: "Node \<Rightarrow> error + double" where
  "v_double n = (case u n of U_v_double a \<Rightarrow> Inr a | _ \<Rightarrow> Inl UB_union)"

definition v_bool :: "Node \<Rightarrow> error + bool" where
  "v_bool n = (case u n of U_v_bool a \<Rightarrow> Inr a | _ \<Rightarrow> Inl UB_union)"

definition code :: "Node \<Rightarrow> error + nat" where
  "code n = (case u n of U_code a \<Rightarrow> Inr a | _ \<Rightarrow> Inl UB_union)"

definition v_builtin :: "Node \<Rightarrow> error + builtin" where
  "v_builtin n = (case u n of U_v_builtin a \<Rightarrow> Inr a | _ \<Rightarrow> Inl UB_union)"

subsection \<open>Forms\<close>

text \<open>
  The reader and the compile pass only build fresh nodes and never write into an existing
  one, so up to the evaluator a form is kept as a value: a node with its children in
  place of the pointers to them. \<open>The_nil\<close> is the pointer to the global node \<open>nil\<close>,
  which the compile pass returns for a \<open>defmacro\<close>.
\<close>

datatype form =
    Form node_type union_member string "form list"
  | The_nil

fun f_type :: "form \<Rightarrow> node_type" where
  "f_type (Form ty un str lst) = ty"
| "f_type The_nil = T_NIL"

fun f_string :: "form \<Rightarrow> string" where
  "f_string (Form ty un str lst) = str"
| "f_string The_nil = []"

fun f_list :: "form \<Rightarrow> form list" where
  "f_list (Form ty un str lst) = lst"
| "f_list The_nil = []"

definition form_string :: "string \<Rightarrow> form" where
  "form_string a = Form T_STRING U_p_thread_null a []"

definition form_int :: "32 word \<Rightarrow> form" where
  "form_int a = Form T_INT (U_v_int a) [] []"

definition form_double :: "double \<Rightarrow> form" where
  "form_double a = Form T_DOUBLE (U_v_double a) [] []"

definition form_list :: "form list \<Rightarrow> form" where
  "form_list a = Form T_LIST U_p_thread_null [] a"

definition form_symbol :: "string \<Rightarrow> nat \<Rightarrow> form" where
  "form_symbol tok c = Form T_SYMBOL (U_code c) tok []"

text \<open>\<open>std::map<std::string, std::vector<snode>> macros\<close>; every entry is the pair of
  the parameter list and the body.\<close>

type_synonym macro_table = "string \<rightharpoonup> form \<times> form"

subsection \<open>Environments and the interpreter state\<close>

record environment =
  env :: "nat \<rightharpoonup> snode"
  outer :: "senvironment option"

record state =
  nodes :: "Node list"
  frames :: "environment list"
  symbols :: symtab
  macros :: macro_table
  global_env :: "senvironment option"

text \<open>The five nodes created by the static initializers, in declaration order.\<close>

definition node_true :: snode where "node_true = 0"
definition node_false :: snode where "node_false = 1"
definition node_0 :: snode where "node_0 = 2"
definition node_1 :: snode where "node_1 = 3"
definition nil :: snode where "nil = 4"

definition static_init :: state where
  "static_init =
     \<lparr>nodes = [Node_bool True, Node_bool False, Node_int 0, Node_int 1, Node_nil],
      frames = [], symbols = empty_symtab, macros = Map.empty, global_env = None\<rparr>"

definition node_at :: "state \<Rightarrow> snode \<Rightarrow> error + Node" where
  "node_at s p = (if p < length (nodes s) then Inr (nodes s ! p) else Inl UB_null)"

definition new_node :: "Node \<Rightarrow> state \<Rightarrow> snode \<times> state" where
  "new_node n s = (length (nodes s), s\<lparr>nodes := nodes s @ [n]\<rparr>)"

definition new_environment :: "environment \<Rightarrow> state \<Rightarrow> senvironment \<times> state" where
  "new_environment e s = (length (frames s), s\<lparr>frames := frames s @ [e]\<rparr>)"

text \<open>\<open>xs[i]\<close> and \<open>xs.at(i)\<close> on a vector.\<close>

definition elem :: "'a list \<Rightarrow> nat \<Rightarrow> error + 'a" where
  "elem xs i = (if i < length xs then Inr (xs ! i) else Inl UB_index)"

definition elem_at :: "'a list \<Rightarrow> nat \<Rightarrow> error + 'a" where
  "elem_at xs i = (if i < length xs then Inr (xs ! i) else Inl Out_of_range)"

text \<open>
  \<open>environment::get(size_t)\<close>. The result is \<open>None\<close> when the call does not return (a
  cyclic chain) or runs into a pointer outside the frame store.
\<close>

partial_function (option) get :: "environment list \<Rightarrow> senvironment \<Rightarrow> nat \<Rightarrow> snode option" where
  "get fs e c =
     (if e < length fs then
        (case env (fs ! e) c of
           Some found \<Rightarrow> Some found
         | None \<Rightarrow>
             (case outer (fs ! e) of
                Some up \<Rightarrow> get fs up c
              | None \<Rightarrow> Some nil))
      else None)"

text \<open>\<open>environment::set(k, v)\<close>: \<open>env[k->code] = v\<close> in this frame.\<close>

definition set_env :: "senvironment \<Rightarrow> snode \<Rightarrow> snode \<Rightarrow> state \<Rightarrow> error + state" where
  "set_env e k v s =
     (case node_at s k of
        Inl err \<Rightarrow> Inl err
      | Inr kn \<Rightarrow>
          (case code kn of
             Inl err \<Rightarrow> Inl err
           | Inr c \<Rightarrow>
               if e < length (frames s) then
                 Inr (s\<lparr>frames := (frames s)[e := (frames s ! e)\<lparr>env := (env (frames s ! e))(c \<mapsto> v)\<rparr>]\<rparr>)
               else Inl UB_null))"

subsection \<open>Conversions\<close>

text \<open>The numeric layer of the host: IEEE-754 operations on \<open>double\<close> and the C library's
  \<open>atof\<close>.\<close>

record host =
  int_to_double :: "32 word \<Rightarrow> double"
  double_to_int :: "double \<Rightarrow> 32 word"
  atof :: "string \<Rightarrow> double"
  d_add :: "double \<Rightarrow> double \<Rightarrow> double"
  d_sub :: "double \<Rightarrow> double \<Rightarrow> double"
  d_mul :: "double \<Rightarrow> double \<Rightarrow> double"
  d_div :: "double \<Rightarrow> double \<Rightarrow> double"
  d_less :: "double \<Rightarrow> double \<Rightarrow> bool"
  d_neq :: "double \<Rightarrow> double \<Rightarrow> bool"

text \<open>
  \<open>atoi\<close>: optional white space, an optional sign, then decimal digits up to the first
  character that is not one. A value outside the range of \<open>int\<close> is undefined.
\<close>

definition is_digit :: "char \<Rightarrow> bool" where
  "is_digit c \<longleftrightarrow> 48 \<le> (of_char c :: nat) \<and> (of_char c :: nat) \<le> 57"

definition is_c_space :: "char \<Rightarrow> bool" where
  "is_c_space c \<longleftrightarrow> (of_char c :: nat) = 32 \<or> (9 \<le> (of_char c :: nat) \<and> (of_char c :: nat) \<le> 13)"

definition digits_value :: "string \<Rightarrow> int" where
  "digits_value ds = foldl (\<lambda>a c. 10 * a + (of_char c - 48)) 0 ds"

definition atoi :: "string \<Rightarrow> error + 32 word" where
  "atoi str =
     (let s1 = dropWhile is_c_space str;
          neg = (s1 \<noteq> [] \<and> hd s1 = CHR ''-'');
          s2 = (if s1 \<noteq> [] \<and> (hd s1 = CHR ''-'' \<or> hd s1 = CHR ''+'') then tl s1 else s1);
          v = digits_value (takeWhile is_digit s2);
          r = (if neg then - v else v)
      in if - (2 ^ 31) \<le> r \<and> r < 2 ^ 31 then Inr (word_of_int r) else Inl UB_arith)"

definition bool_to_int :: "bool \<Rightarrow> 32 word" where
  "bool_to_int b = (if b then 1 else 0)"

definition to_int :: "host \<Rightarrow> Node \<Rightarrow> error + 32 word" where
  "to_int h n =
     (case type n of
        T_INT \<Rightarrow> v_int n
      | T_DOUBLE \<Rightarrow> (case v_double n of Inl e \<Rightarrow> Inl e | Inr d \<Rightarrow> Inr (double_to_int h d))
      | T_BOOL \<Rightarrow> (case v_bool n of Inl e \<Rightarrow> Inl e | Inr b \<Rightarrow> Inr (bool_to_int b))
      | T_STRING \<Rightarrow> atoi (v_string n)
      | _ \<Rightarrow> Inr 0)"

definition to_double :: "host \<Rightarrow> Node \<Rightarrow> error + double" where
  "to_double h n =
     (case type n of
        T_INT \<Rightarrow> (case v_int n of Inl e \<Rightarrow> Inl e | Inr i \<Rightarrow> Inr (int_to_double h i))
      | T_DOUBLE \<Rightarrow> v_double n
      | T_BOOL \<Rightarrow>
          (case v_bool n of Inl e \<Rightarrow> Inl e | Inr b \<Rightarrow> Inr (int_to_double h (bool_to_int b)))
      | T_STRING \<Rightarrow> Inr (atof h (v_string n))
      | _ \<Rightarrow> Inr 0)"

definition type_str :: "Node \<Rightarrow> string" where
  "type_str n =
     (case type n of
        T_NIL \<Rightarrow> ''nil'' | T_INT \<Rightarrow> ''int'' | T_DOUBLE \<Rightarrow> ''double'' | T_BOOL \<Rightarrow> ''bool''
      | T_STRING \<Rightarrow> ''std::string'' | T_SYMBOL \<Rightarrow> ''symbol'' | T_LIST \<Rightarrow> ''list''
      | T_BUILTIN \<Rightarrow> ''builtin'' | T_SPECIAL \<Rightarrow> ''special'' | T_FN \<Rightarrow> ''fn''
      | T_THREAD \<Rightarrow> ''std::thread'')"


subsection \<open>Primitives that do not evaluate\<close>

text \<open>
  Every primitive has the signature \<open>(std::vector<snode> &args, senvironment &env)\<close>. The
  vector is a reference: to the \<open>v_list\<close> of the form under evaluation when a special form
  is called, to the evaluator's local vector of evaluated operands otherwise.
\<close>

datatype arg_vector = Ref snode | Local "snode list"

definition vec :: "state \<Rightarrow> arg_vector \<Rightarrow> error + snode list" where
  "vec s args =
     (case args of
        Local xs \<Rightarrow> Inr xs
      | Ref n \<Rightarrow> (case node_at s n of Inl e \<Rightarrow> Inl e | Inr nd \<Rightarrow> Inr (v_list nd)))"

text \<open>Integer arithmetic on \<open>int\<close>: \<open>+ - *\<close> wrap; \<open>/\<close> and \<open>%\<close> truncate towards zero and
  are undefined for a zero divisor and for \<open>INT_MIN / -1\<close>.\<close>

definition int_div :: "32 word \<Rightarrow> 32 word \<Rightarrow> error + 32 word" where
  "int_div a b =
     (if b = 0 \<or> (a = - (2 ^ 31) \<and> b = - 1) then Inl UB_arith
      else Inr (word_of_int (sgn (sint a) * sgn (sint b) * (abs (sint a) div abs (sint b)))))"

definition int_rem :: "32 word \<Rightarrow> 32 word \<Rightarrow> error + 32 word" where
  "int_rem a b =
     (case int_div a b of Inl e \<Rightarrow> Inl e | Inr q \<Rightarrow> Inr (a - q * b))"

text \<open>The loops \<open>for (i = args.begin() + 1; i != args.end(); i++) sm op= (*i)->to_int()\<close>
  and the same with \<open>to_double\<close>.\<close>

fun int_operands ::
  "host \<Rightarrow> state \<Rightarrow> (32 word \<Rightarrow> 32 word \<Rightarrow> error + 32 word) \<Rightarrow> 32 word \<Rightarrow> snode list
     \<Rightarrow> error + 32 word" where
  "int_operands h s iop sm [] = Inr sm"
| "int_operands h s iop sm (p # ps) =
     (case node_at s p of
        Inl e \<Rightarrow> Inl e
      | Inr n \<Rightarrow>
          (case to_int h n of
             Inl e \<Rightarrow> Inl e
           | Inr x \<Rightarrow>
               (case iop sm x of
                  Inl e \<Rightarrow> Inl e
                | Inr sm' \<Rightarrow> int_operands h s iop sm' ps)))"

fun double_operands ::
  "host \<Rightarrow> state \<Rightarrow> (double \<Rightarrow> double \<Rightarrow> double) \<Rightarrow> double \<Rightarrow> snode list \<Rightarrow> error + double" where
  "double_operands h s dop sm [] = Inr sm"
| "double_operands h s dop sm (p # ps) =
     (case node_at s p of
        Inl e \<Rightarrow> Inl e
      | Inr n \<Rightarrow>
          (case to_double h n of
             Inl e \<Rightarrow> Inl e
           | Inr x \<Rightarrow> double_operands h s dop (dop sm x) ps))"

text \<open>
  The common text of \<open>builtin_plus\<close>, \<open>builtin_minus\<close>, \<open>builtin_mul\<close> and \<open>builtin_div\<close>,
  which differ in the node returned for no operands and in the operator. The first
  operand is read through \<open>first->v_int\<close> when it is an \<open>int\<close> and through
  \<open>first->v_double\<close> in every other case.
\<close>

definition arith ::
  "host \<Rightarrow> snode \<Rightarrow> (32 word \<Rightarrow> 32 word \<Rightarrow> error + 32 word) \<Rightarrow> (double \<Rightarrow> double \<Rightarrow> double)
     \<Rightarrow> snode list \<Rightarrow> senvironment \<Rightarrow> state \<Rightarrow> error + (snode \<times> state)" where
  "arith h ident iop dop args e s =
     (if length args \<le> 0 then Inr (ident, s)
      else
        (case node_at s (args ! 0) of
           Inl err \<Rightarrow> Inl err
         | Inr first \<Rightarrow>
             if type first = T_INT then
               (case v_int first of
                  Inl err \<Rightarrow> Inl err
                | Inr i \<Rightarrow>
                    (case int_operands h s iop i (tl args) of
                       Inl err \<Rightarrow> Inl err
                     | Inr sm \<Rightarrow> Inr (new_node (Node_int sm) s)))
             else
               (case v_double first of
                  Inl err \<Rightarrow> Inl err
                | Inr d \<Rightarrow>
                    (case double_operands h s dop d (tl args) of
                       Inl err \<Rightarrow> Inl err
                     | Inr sm \<Rightarrow> Inr (new_node (Node_double sm) s)))))"

definition builtin_plus :: "host \<Rightarrow> snode list \<Rightarrow> senvironment \<Rightarrow> state \<Rightarrow> error + (snode \<times> state)" where
  "builtin_plus h = arith h node_0 (\<lambda>sm x. Inr (sm + x)) (d_add h)"

definition builtin_minus :: "host \<Rightarrow> snode list \<Rightarrow> senvironment \<Rightarrow> state \<Rightarrow> error + (snode \<times> state)" where
  "builtin_minus h = arith h node_0 (\<lambda>sm x. Inr (sm - x)) (d_sub h)"

definition builtin_mul :: "host \<Rightarrow> snode list \<Rightarrow> senvironment \<Rightarrow> state \<Rightarrow> error + (snode \<times> state)" where
  "builtin_mul h = arith h node_1 (\<lambda>sm x. Inr (sm * x)) (d_mul h)"

definition builtin_div :: "host \<Rightarrow> snode list \<Rightarrow> senvironment \<Rightarrow> state \<Rightarrow> error + (snode \<times> state)" where
  "builtin_div h = arith h node_1 int_div (d_div h)"

text \<open>Two operands read as \<open>args[0]\<close> and \<open>args[1]\<close>.\<close>

definition operand :: "state \<Rightarrow> snode list \<Rightarrow> nat \<Rightarrow> error + Node" where
  "operand s args i =
     (case elem args i of Inl e \<Rightarrow> Inl e | Inr p \<Rightarrow> node_at s p)"

definition builtin_lt :: "host \<Rightarrow> snode list \<Rightarrow> senvironment \<Rightarrow> state \<Rightarrow> error + (snode \<times> state)" where
  "builtin_lt h args e s =
     (case operand s args 0 of
        Inl err \<Rightarrow> Inl err
      | Inr a \<Rightarrow>
          (case operand s args 1 of
             Inl err \<Rightarrow> Inl err
           | Inr b \<Rightarrow>
               if type a = T_INT then
                 (case v_int a of
                    Inl err \<Rightarrow> Inl err
                  | Inr x \<Rightarrow>
                      (case to_int h b of
                         Inl err \<Rightarrow> Inl err
                       | Inr y \<Rightarrow> Inr (new_node (Node_bool (sint x < sint y)) s)))
               else
                 (case v_double a of
                    Inl err \<Rightarrow> Inl err
                  | Inr x \<Rightarrow>
                      (case to_double h b of
                         Inl err \<Rightarrow> Inl err
                       | Inr y \<Rightarrow> Inr (new_node (Node_bool (d_less h x y)) s)))))"

definition builtin_percent :: "host \<Rightarrow> snode list \<Rightarrow> senvironment \<Rightarrow> state \<Rightarrow> error + (snode \<times> state)" where
  "builtin_percent h args e s =
     (case operand s args 0 of
        Inl err \<Rightarrow> Inl err
      | Inr a \<Rightarrow>
          (case operand s args 1 of
             Inl err \<Rightarrow> Inl err
           | Inr b \<Rightarrow>
               (case to_int h a of
                  Inl err \<Rightarrow> Inl err
                | Inr x \<Rightarrow>
                    (case to_int h b of
                       Inl err \<Rightarrow> Inl err
                     | Inr y \<Rightarrow>
                         (case int_rem x y of
                            Inl err \<Rightarrow> Inl err
                          | Inr r \<Rightarrow> Inr (new_node (Node_int r) s))))))"

text \<open>\<open>++\<close> and \<open>--\<close> write into the operand's node.\<close>

definition step_in_place ::
  "host \<Rightarrow> (32 word \<Rightarrow> 32 word) \<Rightarrow> (double \<Rightarrow> double) \<Rightarrow> snode list \<Rightarrow> senvironment \<Rightarrow> state
     \<Rightarrow> error + (snode \<times> state)" where
  "step_in_place h istep dstep args e s =
     (if length args \<le> 0 then Inr (new_node (Node_int 0) s)
      else
        (let first = args ! 0 in
         case node_at s first of
           Inl err \<Rightarrow> Inl err
         | Inr n \<Rightarrow>
             if type n = T_INT then
               (case v_int n of
                  Inl err \<Rightarrow> Inl err
                | Inr i \<Rightarrow> Inr (first, s\<lparr>nodes := (nodes s)[first := n\<lparr>u := U_v_int (istep i)\<rparr>]\<rparr>))
             else
               (case v_double n of
                  Inl err \<Rightarrow> Inl err
                | Inr d \<Rightarrow>
                    Inr (first, s\<lparr>nodes := (nodes s)[first := n\<lparr>u := U_v_double (dstep d)\<rparr>]\<rparr>))))"

definition builtin_plusplus :: "host \<Rightarrow> snode list \<Rightarrow> senvironment \<Rightarrow> state \<Rightarrow> error + (snode \<times> state)" where
  "builtin_plusplus h = step_in_place h (\<lambda>i. i + 1) (\<lambda>d. d_add h d (int_to_double h 1))"

definition builtin_minusminus :: "host \<Rightarrow> snode list \<Rightarrow> senvironment \<Rightarrow> state \<Rightarrow> error + (snode \<times> state)" where
  "builtin_minusminus h = step_in_place h (\<lambda>i. i - 1) (\<lambda>d. d_sub h d (int_to_double h 1))"

text \<open>\<open>==\<close>: the loops return \<open>node_false\<close> at the first operand that differs.\<close>

fun all_int_eq :: "host \<Rightarrow> state \<Rightarrow> 32 word \<Rightarrow> snode list \<Rightarrow> error + bool" where
  "all_int_eq h s firstv [] = Inr True"
| "all_int_eq h s firstv (p # ps) =
     (case node_at s p of
        Inl e \<Rightarrow> Inl e
      | Inr n \<Rightarrow>
          (case to_int h n of
             Inl e \<Rightarrow> Inl e
           | Inr x \<Rightarrow> if x \<noteq> firstv then Inr False else all_int_eq h s firstv ps))"

fun all_double_eq :: "host \<Rightarrow> state \<Rightarrow> double \<Rightarrow> snode list \<Rightarrow> error + bool" where
  "all_double_eq h s firstv [] = Inr True"
| "all_double_eq h s firstv (p # ps) =
     (case node_at s p of
        Inl e \<Rightarrow> Inl e
      | Inr n \<Rightarrow>
          (case to_double h n of
             Inl e \<Rightarrow> Inl e
           | Inr x \<Rightarrow> if d_neq h x firstv then Inr False else all_double_eq h s firstv ps))"

definition builtin_eqeq :: "host \<Rightarrow> snode list \<Rightarrow> senvironment \<Rightarrow> state \<Rightarrow> error + (snode \<times> state)" where
  "builtin_eqeq h args e s =
     (case operand s args 0 of
        Inl err \<Rightarrow> Inl err
      | Inr first \<Rightarrow>
          (case (if type first = T_INT then
                   (case v_int first of
                      Inl err \<Rightarrow> Inl err
                    | Inr firstv \<Rightarrow> all_int_eq h s firstv (tl args))
                 else
                   (case v_double first of
                      Inl err \<Rightarrow> Inl err
                    | Inr firstv \<Rightarrow> all_double_eq h s firstv (tl args))) of
             Inl err \<Rightarrow> Inl err
           | Inr b \<Rightarrow> Inr (if b then node_true else node_false, s)))"

definition builtin_not :: "host \<Rightarrow> snode list \<Rightarrow> senvironment \<Rightarrow> state \<Rightarrow> error + (snode \<times> state)" where
  "builtin_not h args e s =
     (case operand s args 0 of
        Inl err \<Rightarrow> Inl err
      | Inr a \<Rightarrow>
          (case v_bool a of
             Inl err \<Rightarrow> Inl err
           | Inr b \<Rightarrow> Inr (new_node (Node_bool (\<not> b)) s)))"

definition builtin_strlen :: "host \<Rightarrow> snode list \<Rightarrow> senvironment \<Rightarrow> state \<Rightarrow> error + (snode \<times> state)" where
  "builtin_strlen h args e s =
     (case operand s args 0 of
        Inl err \<Rightarrow> Inl err
      | Inr a \<Rightarrow> Inr (new_node (Node_int (of_nat (length (v_string a)))) s))"

definition builtin_int :: "host \<Rightarrow> snode list \<Rightarrow> senvironment \<Rightarrow> state \<Rightarrow> error + (snode \<times> state)" where
  "builtin_int h args e s =
     (case operand s args 0 of
        Inl err \<Rightarrow> Inl err
      | Inr a \<Rightarrow>
          (case to_int h a of
             Inl err \<Rightarrow> Inl err
           | Inr i \<Rightarrow> Inr (new_node (Node_int i) s)))"

definition builtin_double :: "host \<Rightarrow> snode list \<Rightarrow> senvironment \<Rightarrow> state \<Rightarrow> error + (snode \<times> state)" where
  "builtin_double h args e s =
     (case operand s args 0 of
        Inl err \<Rightarrow> Inl err
      | Inr a \<Rightarrow>
          (case to_double h a of
             Inl err \<Rightarrow> Inl err
           | Inr d \<Rightarrow> Inr (new_node (Node_double d) s)))"

definition builtin_type :: "host \<Rightarrow> snode list \<Rightarrow> senvironment \<Rightarrow> state \<Rightarrow> error + (snode \<times> state)" where
  "builtin_type h args e s =
     (case operand s args 0 of
        Inl err \<Rightarrow> Inl err
      | Inr a \<Rightarrow> Inr (new_node (Node_string (type_str a)) s))"

definition builtin_list :: "host \<Rightarrow> snode list \<Rightarrow> senvironment \<Rightarrow> state \<Rightarrow> error + (snode \<times> state)" where
  "builtin_list h args e s = Inr (new_node (Node_list args) s)"

definition builtin_cons :: "host \<Rightarrow> snode list \<Rightarrow> senvironment \<Rightarrow> state \<Rightarrow> error + (snode \<times> state)" where
  "builtin_cons h args e s =
     (case elem args 0 of
        Inl err \<Rightarrow> Inl err
      | Inr x \<Rightarrow>
          (case operand s args 1 of
             Inl err \<Rightarrow> Inl err
           | Inr lst \<Rightarrow> Inr (new_node (Node_list (x # v_list lst)) s)))"

text \<open>\<open>push-back!\<close> appends a copy of the item to the list node itself.\<close>

definition builtin_push_backd :: "host \<Rightarrow> snode list \<Rightarrow> senvironment \<Rightarrow> state \<Rightarrow> error + (snode \<times> state)" where
  "builtin_push_backd h args e s =
     (case elem args 0 of
        Inl err \<Rightarrow> Inl err
      | Inr l \<Rightarrow>
          (case operand s args 1 of
             Inl err \<Rightarrow> Inl err
           | Inr item \<Rightarrow>
               (case new_node item s of
                  (copy, s1) \<Rightarrow>
                    (case node_at s1 l of
                       Inl err \<Rightarrow> Inl err
                     | Inr ln \<Rightarrow>
                         Inr (l, s1\<lparr>nodes := (nodes s1)[l := ln\<lparr>v_list := v_list ln @ [copy]\<rparr>]\<rparr>)))))"

text \<open>\<open>pop-back!\<close>: \<open>v.back()\<close> and \<open>v.pop_back()\<close> on \<open>args[0]->v_list\<close>; both are undefined
  on an empty vector.\<close>

definition builtin_pop_backd :: "host \<Rightarrow> snode list \<Rightarrow> senvironment \<Rightarrow> state \<Rightarrow> error + (snode \<times> state)" where
  "builtin_pop_backd h args e s =
     (case elem args 0 of
        Inl err \<Rightarrow> Inl err
      | Inr l \<Rightarrow>
          (case node_at s l of
             Inl err \<Rightarrow> Inl err
           | Inr ln \<Rightarrow>
               if v_list ln = [] then Inl UB_index
               else
                 Inr (last (v_list ln),
                      s\<lparr>nodes := (nodes s)[l := ln\<lparr>v_list := butlast (v_list ln)\<rparr>]\<rparr>)))"

text \<open>\<open>nth\<close>: the assertion \<open>i >= 0\<close> aborts; the index is not checked against the size.\<close>

definition builtin_nth :: "host \<Rightarrow> snode list \<Rightarrow> senvironment \<Rightarrow> state \<Rightarrow> error + (snode \<times> state)" where
  "builtin_nth h args e s =
     (case operand s args 0 of
        Inl err \<Rightarrow> Inl err
      | Inr a \<Rightarrow>
          (case to_int h a of
             Inl err \<Rightarrow> Inl err
           | Inr i \<Rightarrow>
               if \<not> (0 \<le> sint i) then Inl Assertion_failed
               else
                 (case operand s args 1 of
                    Inl err \<Rightarrow> Inl err
                  | Inr lst \<Rightarrow>
                      (case elem (v_list lst) (unat i) of
                         Inl err \<Rightarrow> Inl err
                       | Inr x \<Rightarrow> Inr (x, s)))))"

definition builtin_length :: "host \<Rightarrow> snode list \<Rightarrow> senvironment \<Rightarrow> state \<Rightarrow> error + (snode \<times> state)" where
  "builtin_length h args e s =
     (case operand s args 0 of
        Inl err \<Rightarrow> Inl err
      | Inr a \<Rightarrow> Inr (new_node (Node_int (of_nat (length (v_list a)))) s))"

text \<open>\<open>(quote X)\<close> and \<open>(fn (ARGUMENT ..) BODY ..)\<close>. The closure is a fresh node holding a
  copy of the form's vector; its \<open>outer_env\<close> is a fresh, empty frame whose outer link is
  the frame of the definition.\<close>

definition special_quote :: "host \<Rightarrow> arg_vector \<Rightarrow> senvironment \<Rightarrow> state \<Rightarrow> error + (snode \<times> state)" where
  "special_quote h raw_args e s =
     (case vec s raw_args of
        Inl err \<Rightarrow> Inl err
      | Inr raw \<Rightarrow>
          (case elem raw 1 of
             Inl err \<Rightarrow> Inl err
           | Inr x \<Rightarrow> Inr (x, s)))"

definition special_fn :: "host \<Rightarrow> arg_vector \<Rightarrow> senvironment \<Rightarrow> state \<Rightarrow> error + (snode \<times> state)" where
  "special_fn h raw_args e s =
     (case vec s raw_args of
        Inl err \<Rightarrow> Inl err
      | Inr raw \<Rightarrow>
          (case new_node (Node_list raw) s of
             (n2, s1) \<Rightarrow>
               (case new_environment \<lparr>env = Map.empty, outer = Some e\<rparr> s1 of
                  (outer_env', s2) \<Rightarrow>
                    Inr (n2, s2\<lparr>nodes := (nodes s2)[n2 := (Node_list raw)\<lparr>type := T_FN, outer_env := Some outer_env'\<rparr>]\<rparr>))))"


subsection \<open>Evaluator\<close>

text \<open>
  \<open>eval\<close>, \<open>apply\<close> and the primitives that call them. Evaluation need not terminate, so
  \<open>eval\<close> and \<open>apply\<close> take a bound on the depth of calls still allowed and return
  \<open>Out_of_fuel\<close> when it is used up. The primitives take the evaluator \<open>ev\<close> (the function
  \<open>eval\<close>) or the applier \<open>ap\<close> (the function \<open>apply\<close>) that they call as their first
  argument. Loops over a vector are by index, carry their own bound, and read the vector
  from the current store at every step, as the references in the source do.
\<close>

type_synonym evaluator = "snode \<Rightarrow> senvironment \<Rightarrow> state \<Rightarrow> error + (snode \<times> state)"
type_synonym applier =
  "snode \<Rightarrow> snode list \<Rightarrow> senvironment \<Rightarrow> state \<Rightarrow> error + (snode \<times> state)"

definition size_t_pred :: "nat \<Rightarrow> nat" where
  "size_t_pred n = (n + 2 ^ 64 - 1) mod 2 ^ 64"

text \<open>\<open>local_env->env[k->code] = args[i]\<close> for every parameter symbol.\<close>

fun assign_arguments ::
  "senvironment \<Rightarrow> snode list \<Rightarrow> snode list \<Rightarrow> nat \<Rightarrow> state \<Rightarrow> error + state" where
  "assign_arguments local_env [] args i s = Inr s"
| "assign_arguments local_env (k # arg_syms) args i s =
     (case elem args i of
        Inl err \<Rightarrow> Inl err
      | Inr a \<Rightarrow>
          (case set_env local_env k a s of
             Inl err \<Rightarrow> Inl err
           | Inr s1 \<Rightarrow> assign_arguments local_env arg_syms args (i + 1) s1))"

text \<open>The operands of a call: \<open>for (i = n->v_list.begin() + 1; i != n->v_list.end(); i++)
  args.push_back(eval(*i, env))\<close>.\<close>

fun eval_operands ::
  "evaluator \<Rightarrow> nat \<Rightarrow> snode \<Rightarrow> nat \<Rightarrow> snode list \<Rightarrow> senvironment \<Rightarrow> state
     \<Rightarrow> error + (snode list \<times> state)" where
  "eval_operands ev fuel n i args e s =
     (case fuel of
        0 \<Rightarrow> Inl Out_of_fuel
      | Suc k \<Rightarrow>
          (case node_at s n of
             Inl err \<Rightarrow> Inl err
           | Inr nd \<Rightarrow>
               if i < length (v_list nd) then
                 (case ev (v_list nd ! i) e s of
                    Inl err \<Rightarrow> Inl err
                  | Inr (a, s1) \<Rightarrow> eval_operands ev k n (i + 1) (args @ [a]) e s1)
               else Inr (args, s)))"

text \<open>\<open>for (; i < j; i++) eval(args[i], env)\<close>, the results dropped.\<close>

fun eval_each ::
  "evaluator \<Rightarrow> nat \<Rightarrow> arg_vector \<Rightarrow> nat \<Rightarrow> nat \<Rightarrow> senvironment \<Rightarrow> state \<Rightarrow> error + state" where
  "eval_each ev fuel args i j e s =
     (case fuel of
        0 \<Rightarrow> Inl Out_of_fuel
      | Suc k \<Rightarrow>
          if i < j then
            (case vec s args of
               Inl err \<Rightarrow> Inl err
             | Inr raw \<Rightarrow>
                 (case elem raw i of
                    Inl err \<Rightarrow> Inl err
                  | Inr form \<Rightarrow>
                      (case ev form e s of
                         Inl err \<Rightarrow> Inl err
                       | Inr (r, s1) \<Rightarrow> eval_each ev k args (i + 1) j e s1)))
          else Inr s)"

text \<open>The loop of \<open>&&\<close> and \<open>||\<close>: evaluate the operands from index \<open>i\<close> until one has
  \<open>v_bool = stop\<close>; the result tells whether the loop stopped early.\<close>

fun eval_until ::
  "evaluator \<Rightarrow> nat \<Rightarrow> bool \<Rightarrow> arg_vector \<Rightarrow> nat \<Rightarrow> senvironment \<Rightarrow> state
     \<Rightarrow> error + (bool \<times> state)" where
  "eval_until ev fuel stop args i e s =
     (case fuel of
        0 \<Rightarrow> Inl Out_of_fuel
      | Suc k \<Rightarrow>
          (case vec s args of
             Inl err \<Rightarrow> Inl err
           | Inr raw \<Rightarrow>
               if i < length raw then
                 (case ev (raw ! i) e s of
                    Inl err \<Rightarrow> Inl err
                  | Inr (r, s1) \<Rightarrow>
                      (case node_at s1 r of
                         Inl err \<Rightarrow> Inl err
                       | Inr rn \<Rightarrow>
                           (case v_bool rn of
                              Inl err \<Rightarrow> Inl err
                            | Inr b \<Rightarrow>
                                if b = stop then Inr (True, s1)
                                else eval_until ev k stop args (i + 1) e s1)))
               else Inr (False, s)))"

definition special_andand ::
  "evaluator \<Rightarrow> nat \<Rightarrow> arg_vector \<Rightarrow> senvironment \<Rightarrow> state \<Rightarrow> error + (snode \<times> state)" where
  "special_andand ev fuel raw_args e s =
     (case eval_until ev fuel False raw_args 1 e s of
        Inl err \<Rightarrow> Inl err
      | Inr (stopped, s1) \<Rightarrow> Inr (if stopped then node_false else node_true, s1))"

definition special_oror ::
  "evaluator \<Rightarrow> nat \<Rightarrow> arg_vector \<Rightarrow> senvironment \<Rightarrow> state \<Rightarrow> error + (snode \<times> state)" where
  "special_oror ev fuel raw_args e s =
     (case eval_until ev fuel True raw_args 1 e s of
        Inl err \<Rightarrow> Inl err
      | Inr (stopped, s1) \<Rightarrow> Inr (if stopped then node_true else node_false, s1))"

text \<open>\<open>(def SYMBOL VALUE)\<close>: the value is copied into a fresh node, which is bound in the
  frame \<open>env\<close> that the special form was called with.\<close>

definition special_def ::
  "evaluator \<Rightarrow> arg_vector \<Rightarrow> senvironment \<Rightarrow> state \<Rightarrow> error + (snode \<times> state)" where
  "special_def ev raw_args e s =
     (case vec s raw_args of
        Inl err \<Rightarrow> Inl err
      | Inr raw \<Rightarrow>
          (case elem raw 2 of
             Inl err \<Rightarrow> Inl err
           | Inr form \<Rightarrow>
               (case ev form e s of
                  Inl err \<Rightarrow> Inl err
                | Inr (r, s1) \<Rightarrow>
                    (case node_at s1 r of
                       Inl err \<Rightarrow> Inl err
                     | Inr rn \<Rightarrow>
                         (case new_node rn s1 of
                            (val, s2) \<Rightarrow>
                              (case vec s2 raw_args of
                                 Inl err \<Rightarrow> Inl err
                               | Inr raw' \<Rightarrow>
                                   (case elem raw' 1 of
                                      Inl err \<Rightarrow> Inl err
                                    | Inr symb \<Rightarrow>
                                        (case set_env e symb val s2 of
                                           Inl err \<Rightarrow> Inl err
                                         | Inr s3 \<Rightarrow> Inr (val, s3)))))))))"

definition special_if ::
  "evaluator \<Rightarrow> arg_vector \<Rightarrow> senvironment \<Rightarrow> state \<Rightarrow> error + (snode \<times> state)" where
  "special_if ev raw_args e s =
     (case vec s raw_args of
        Inl err \<Rightarrow> Inl err
      | Inr raw \<Rightarrow>
          (case elem raw 1 of
             Inl err \<Rightarrow> Inl err
           | Inr cond \<Rightarrow>
               (case ev cond e s of
                  Inl err \<Rightarrow> Inl err
                | Inr (c, s1) \<Rightarrow>
                    (case node_at s1 c of
                       Inl err \<Rightarrow> Inl err
                     | Inr cn \<Rightarrow>
                         (case v_bool cn of
                            Inl err \<Rightarrow> Inl err
                          | Inr b \<Rightarrow>
                              (case vec s1 raw_args of
                                 Inl err \<Rightarrow> Inl err
                               | Inr raw' \<Rightarrow>
                                   if b then
                                     (case elem raw' 2 of
                                        Inl err \<Rightarrow> Inl err
                                      | Inr form \<Rightarrow> ev form e s1)
                                   else if length raw' < 4 then Inr (nil, s1)
                                   else ev (raw' ! 3) e s1))))))"

text \<open>
  \<open>(set SYMBOL-OR-PLACE VALUE)\<close>. \<open>var == nil\<close> compares pointers; \<open>*var = *value\<close> copies
  the whole node of the value over the node that \<open>var\<close> points to.
\<close>

definition special_set ::
  "evaluator \<Rightarrow> arg_vector \<Rightarrow> senvironment \<Rightarrow> state \<Rightarrow> error + (snode \<times> state)" where
  "special_set ev raw_args e s =
     (case vec s raw_args of
        Inl err \<Rightarrow> Inl err
      | Inr raw \<Rightarrow>
          (case elem raw 1 of
             Inl err \<Rightarrow> Inl err
           | Inr place \<Rightarrow>
               (case ev place e s of
                  Inl err \<Rightarrow> Inl err
                | Inr (var, s1) \<Rightarrow>
                    (case vec s1 raw_args of
                       Inl err \<Rightarrow> Inl err
                     | Inr raw1 \<Rightarrow>
                         (case elem raw1 2 of
                            Inl err \<Rightarrow> Inl err
                          | Inr form \<Rightarrow>
                              (case ev form e s1 of
                                 Inl err \<Rightarrow> Inl err
                               | Inr (r, s2) \<Rightarrow>
                                   (case node_at s2 r of
                                      Inl err \<Rightarrow> Inl err
                                    | Inr rn \<Rightarrow>
                                        (case new_node rn s2 of
                                           (val, s3) \<Rightarrow>
                                             (case vec s3 raw_args of
                                                Inl err \<Rightarrow> Inl err
                                              | Inr raw3 \<Rightarrow>
                                                  (case operand s3 raw3 1 of
                                                     Inl err \<Rightarrow> Inl err
                                                   | Inr target \<Rightarrow>
                                                       if type target = T_SYMBOL \<and> var = nil then
                                                         (case set_env e (raw3 ! 1) val s3 of
                                                            Inl err \<Rightarrow> Inl err
                                                          | Inr s4 \<Rightarrow> Inr (val, s4))
                                                       else if var < length (nodes s3) then
                                                         Inr (var, s3\<lparr>nodes := (nodes s3)[var := rn]\<rparr>)
                                                       else Inl UB_null))))))))))"

definition special_begin ::
  "evaluator \<Rightarrow> nat \<Rightarrow> arg_vector \<Rightarrow> senvironment \<Rightarrow> state \<Rightarrow> error + (snode \<times> state)" where
  "special_begin ev fuel raw_args e s =
     (case vec s raw_args of
        Inl err \<Rightarrow> Inl err
      | Inr raw \<Rightarrow>
          (let last_i = size_t_pred (length raw) in
           if last_i \<le> 0 then Inr (nil, s)
           else
             (case eval_each ev fuel raw_args 1 last_i e s of
                Inl err \<Rightarrow> Inl err
              | Inr s1 \<Rightarrow>
                  (case vec s1 raw_args of
                     Inl err \<Rightarrow> Inl err
                   | Inr raw' \<Rightarrow>
                       (case elem raw' last_i of
                          Inl err \<Rightarrow> Inl err
                        | Inr form \<Rightarrow> ev form e s1)))))"

text \<open>\<open>(while CONDITION EXPR ..)\<close>; \<open>len\<close> is \<open>raw_args.size()\<close> on entry.\<close>

fun while_loop ::
  "evaluator \<Rightarrow> nat \<Rightarrow> arg_vector \<Rightarrow> nat \<Rightarrow> senvironment \<Rightarrow> state \<Rightarrow> error + (snode \<times> state)" where
  "while_loop ev fuel raw_args len e s =
     (case fuel of
        0 \<Rightarrow> Inl Out_of_fuel
      | Suc k \<Rightarrow>
          (case vec s raw_args of
             Inl err \<Rightarrow> Inl err
           | Inr raw \<Rightarrow>
               (case elem raw 1 of
                  Inl err \<Rightarrow> Inl err
                | Inr cond \<Rightarrow>
                    (case ev cond e s of
                       Inl err \<Rightarrow> Inl err
                     | Inr (c, s1) \<Rightarrow>
                         (case node_at s1 c of
                            Inl err \<Rightarrow> Inl err
                          | Inr cn \<Rightarrow>
                              (case v_bool cn of
                                 Inl err \<Rightarrow> Inl err
                               | Inr b \<Rightarrow>
                                   if b then
                                     (case eval_each ev k raw_args 2 len e s1 of
                                        Inl err \<Rightarrow> Inl err
                                      | Inr s2 \<Rightarrow> while_loop ev k raw_args len e s2)
                                   else Inr (nil, s1)))))))"

definition special_while ::
  "evaluator \<Rightarrow> nat \<Rightarrow> arg_vector \<Rightarrow> senvironment \<Rightarrow> state \<Rightarrow> error + (snode \<times> state)" where
  "special_while ev fuel raw_args e s =
     (case vec s raw_args of
        Inl err \<Rightarrow> Inl err
      | Inr raw \<Rightarrow> while_loop ev fuel raw_args (length raw) e s)"

definition builtin_eval ::
  "evaluator \<Rightarrow> snode list \<Rightarrow> senvironment \<Rightarrow> state \<Rightarrow> error + (snode \<times> state)" where
  "builtin_eval ev args e s =
     (case elem args 0 of
        Inl err \<Rightarrow> Inl err
      | Inr form \<Rightarrow> ev form e s)"

definition builtin_apply ::
  "applier \<Rightarrow> snode list \<Rightarrow> senvironment \<Rightarrow> state \<Rightarrow> error + (snode \<times> state)" where
  "builtin_apply ap args e s =
     (case elem args 0 of
        Inl err \<Rightarrow> Inl err
      | Inr func \<Rightarrow>
          (case operand s args 1 of
             Inl err \<Rightarrow> Inl err
           | Inr ln \<Rightarrow> ap func (v_list ln) e s))"

text \<open>\<open>fold\<close>: \<open>for (i = 1; i < lst->v_list.size(); i++) acc = apply(f, {acc, lst->v_list.at(i)})\<close>.\<close>

fun fold_loop ::
  "applier \<Rightarrow> nat \<Rightarrow> snode \<Rightarrow> snode \<Rightarrow> nat \<Rightarrow> snode \<Rightarrow> senvironment \<Rightarrow> state
     \<Rightarrow> error + (snode \<times> state)" where
  "fold_loop ap fuel f lst i acc0 e s =
     (case fuel of
        0 \<Rightarrow> Inl Out_of_fuel
      | Suc k \<Rightarrow>
          (case vec s (Ref lst) of
             Inl err \<Rightarrow> Inl err
           | Inr items \<Rightarrow>
               if i < length items then
                 (case ap f [acc0, items ! i] e s of
                    Inl err \<Rightarrow> Inl err
                  | Inr (r, s1) \<Rightarrow> fold_loop ap k f lst (i + 1) r e s1)
               else Inr (acc0, s)))"

definition builtin_fold ::
  "applier \<Rightarrow> nat \<Rightarrow> snode list \<Rightarrow> senvironment \<Rightarrow> state \<Rightarrow> error + (snode \<times> state)" where
  "builtin_fold ap fuel args e s =
     (case elem args 0 of
        Inl err \<Rightarrow> Inl err
      | Inr f \<Rightarrow>
          (case elem args 1 of
             Inl err \<Rightarrow> Inl err
           | Inr lst \<Rightarrow>
               (case vec s (Ref lst) of
                  Inl err \<Rightarrow> Inl err
                | Inr items \<Rightarrow>
                    (case elem items 0 of
                       Inl err \<Rightarrow> Inl err
                     | Inr first \<Rightarrow> fold_loop ap fuel f lst 1 first e s))))"

text \<open>\<open>map\<close>: \<open>len\<close> is the size of the list on entry; \<open>lst->v_list[i]\<close> is read unchecked.\<close>

fun map_loop ::
  "applier \<Rightarrow> nat \<Rightarrow> snode \<Rightarrow> snode \<Rightarrow> nat \<Rightarrow> nat \<Rightarrow> snode list \<Rightarrow> senvironment \<Rightarrow> state
     \<Rightarrow> error + (snode list \<times> state)" where
  "map_loop ap fuel f lst len i res e s =
     (case fuel of
        0 \<Rightarrow> Inl Out_of_fuel
      | Suc k \<Rightarrow>
          if i < len then
            (case vec s (Ref lst) of
               Inl err \<Rightarrow> Inl err
             | Inr items \<Rightarrow>
                 (case elem items i of
                    Inl err \<Rightarrow> Inl err
                  | Inr x \<Rightarrow>
                      (case ap f [x] e s of
                         Inl err \<Rightarrow> Inl err
                       | Inr (r, s1) \<Rightarrow> map_loop ap k f lst len (i + 1) (res @ [r]) e s1)))
          else Inr (res, s))"

definition builtin_map ::
  "applier \<Rightarrow> nat \<Rightarrow> snode list \<Rightarrow> senvironment \<Rightarrow> state \<Rightarrow> error + (snode \<times> state)" where
  "builtin_map ap fuel args e s =
     (case elem args 0 of
        Inl err \<Rightarrow> Inl err
      | Inr f \<Rightarrow>
          (case elem args 1 of
             Inl err \<Rightarrow> Inl err
           | Inr lst \<Rightarrow>
               (case vec s (Ref lst) of
                  Inl err \<Rightarrow> Inl err
                | Inr items \<Rightarrow>
                    (case map_loop ap fuel f lst (length items) 0 [] e s of
                       Inl err \<Rightarrow> Inl err
                     | Inr (res, s1) \<Rightarrow> Inr (new_node (Node_list res) s1)))))"

fun filter_loop ::
  "applier \<Rightarrow> nat \<Rightarrow> snode \<Rightarrow> snode \<Rightarrow> nat \<Rightarrow> snode list \<Rightarrow> senvironment \<Rightarrow> state
     \<Rightarrow> error + (snode list \<times> state)" where
  "filter_loop ap fuel f lst i res e s =
     (case fuel of
        0 \<Rightarrow> Inl Out_of_fuel
      | Suc k \<Rightarrow>
          (case vec s (Ref lst) of
             Inl err \<Rightarrow> Inl err
           | Inr items \<Rightarrow>
               if i < length items then
                 (let item = items ! i in
                  case ap f [item] e s of
                    Inl err \<Rightarrow> Inl err
                  | Inr (r, s1) \<Rightarrow>
                      (case node_at s1 r of
                         Inl err \<Rightarrow> Inl err
                       | Inr rn \<Rightarrow>
                           (case v_bool rn of
                              Inl err \<Rightarrow> Inl err
                            | Inr b \<Rightarrow>
                                filter_loop ap k f lst (i + 1) (if b then res @ [item] else res) e s1)))
               else Inr (res, s)))"

definition builtin_filter ::
  "applier \<Rightarrow> nat \<Rightarrow> snode list \<Rightarrow> senvironment \<Rightarrow> state \<Rightarrow> error + (snode \<times> state)" where
  "builtin_filter ap fuel args e s =
     (case elem args 0 of
        Inl err \<Rightarrow> Inl err
      | Inr f \<Rightarrow>
          (case elem args 1 of
             Inl err \<Rightarrow> Inl err
           | Inr lst \<Rightarrow>
               (case filter_loop ap fuel f lst 0 [] e s of
                  Inl err \<Rightarrow> Inl err
                | Inr (res, s1) \<Rightarrow> Inr (new_node (Node_list res) s1))))"

text \<open>The call \<open>func->v_builtin(args, env)\<close> through a function pointer.\<close>

definition call ::
  "host \<Rightarrow> evaluator \<Rightarrow> applier \<Rightarrow> nat \<Rightarrow> builtin \<Rightarrow> arg_vector \<Rightarrow> senvironment \<Rightarrow> state
     \<Rightarrow> error + (snode \<times> state)" where
  "call h ev ap fuel ptr args e s =
     (if ptr = Ptr_special_def then special_def ev args e s
      else if ptr = Ptr_special_set then special_set ev args e s
      else if ptr = Ptr_special_if then special_if ev args e s
      else if ptr = Ptr_special_fn then special_fn h args e s
      else if ptr = Ptr_special_begin then special_begin ev fuel args e s
      else if ptr = Ptr_special_while then special_while ev fuel args e s
      else if ptr = Ptr_special_quote then special_quote h args e s
      else if ptr = Ptr_special_andand then special_andand ev fuel args e s
      else if ptr = Ptr_special_oror then special_oror ev fuel args e s
      else
        (case vec s args of
           Inl err \<Rightarrow> Inl err
         | Inr xs \<Rightarrow>
             if ptr = Ptr_builtin_eval then builtin_eval ev xs e s
             else if ptr = Ptr_builtin_apply then builtin_apply ap xs e s
             else if ptr = Ptr_builtin_fold then builtin_fold ap fuel xs e s
             else if ptr = Ptr_builtin_map then builtin_map ap fuel xs e s
             else if ptr = Ptr_builtin_filter then builtin_filter ap fuel xs e s
             else if ptr = Ptr_builtin_plus then builtin_plus h xs e s
             else if ptr = Ptr_builtin_minus then builtin_minus h xs e s
             else if ptr = Ptr_builtin_mul then builtin_mul h xs e s
             else if ptr = Ptr_builtin_div then builtin_div h xs e s
             else if ptr = Ptr_builtin_lt then builtin_lt h xs e s
             else if ptr = Ptr_builtin_percent then builtin_percent h xs e s
             else if ptr = Ptr_builtin_plusplus then builtin_plusplus h xs e s
             else if ptr = Ptr_builtin_minusminus then builtin_minusminus h xs e s
             else if ptr = Ptr_builtin_eqeq then builtin_eqeq h xs e s
             else if ptr = Ptr_builtin_not then builtin_not h xs e s
             else if ptr = Ptr_builtin_strlen then builtin_strlen h xs e s
             else if ptr = Ptr_builtin_int then builtin_int h xs e s
             else if ptr = Ptr_builtin_double then builtin_double h xs e s
             else if ptr = Ptr_builtin_type then builtin_type h xs e s
             else if ptr = Ptr_builtin_list then builtin_list h xs e s
             else if ptr = Ptr_builtin_push_backd then builtin_push_backd h xs e s
             else if ptr = Ptr_builtin_pop_backd then builtin_pop_backd h xs e s
             else if ptr = Ptr_builtin_nth then builtin_nth h xs e s
             else if ptr = Ptr_builtin_length then builtin_length h xs e s
             else if ptr = Ptr_builtin_cons then builtin_cons h xs e s
             else Inl Unmodelled))"

text \<open>The body of a user function but for its last form:
  \<open>for (i = 2; i < last; i++) eval(f.at(i), local_env)\<close>.\<close>

fun apply_body ::
  "evaluator \<Rightarrow> nat \<Rightarrow> snode \<Rightarrow> nat \<Rightarrow> nat \<Rightarrow> senvironment \<Rightarrow> state \<Rightarrow> error + state" where
  "apply_body ev fuel func i last_i e s =
     (case fuel of
        0 \<Rightarrow> Inl Out_of_fuel
      | Suc k \<Rightarrow>
          if i < last_i then
            (case vec s (Ref func) of
               Inl err \<Rightarrow> Inl err
             | Inr f \<Rightarrow>
                 (case elem_at f i of
                    Inl err \<Rightarrow> Inl err
                  | Inr form \<Rightarrow>
                      (case ev form e s of
                         Inl err \<Rightarrow> Inl err
                       | Inr (r, s1) \<Rightarrow> apply_body ev k func (i + 1) last_i e s1)))
          else Inr s)"

text \<open>
  What \<open>apply\<close> does to a user function before it runs the body: a fresh frame
  \<open>local_env\<close> whose outer link is the closure's \<open>outer_env\<close>, with the parameters bound.
\<close>

definition enter_function ::
  "Node \<Rightarrow> snode list \<Rightarrow> state \<Rightarrow> error + (senvironment \<times> state)" where
  "enter_function fnode args s =
     (case elem (v_list fnode) 1 of
        Inl err \<Rightarrow> Inl err
      | Inr params \<Rightarrow>
          (case node_at s params of
             Inl err \<Rightarrow> Inl err
           | Inr pnode \<Rightarrow>
               (case new_environment \<lparr>env = Map.empty, outer = outer_env fnode\<rparr> s of
                  (local_env, s1) \<Rightarrow>
                    (case assign_arguments local_env (v_list pnode) args 0 s1 of
                       Inl err \<Rightarrow> Inl err
                     | Inr s2 \<Rightarrow> Inr (local_env, s2)))))"

fun eval :: "host \<Rightarrow> nat \<Rightarrow> snode \<Rightarrow> senvironment \<Rightarrow> state \<Rightarrow> error + (snode \<times> state)"
and apply_func ::
  "host \<Rightarrow> nat \<Rightarrow> snode \<Rightarrow> snode list \<Rightarrow> senvironment \<Rightarrow> state \<Rightarrow> error + (snode \<times> state)"
where
  "eval h fuel n e s =
     (case fuel of
        0 \<Rightarrow> Inl Out_of_fuel
      | Suc k \<Rightarrow>
          (case node_at s n of
             Inl err \<Rightarrow> Inl err
           | Inr nd \<Rightarrow>
               if type nd = T_SYMBOL then
                 (case code nd of
                    Inl err \<Rightarrow> Inl err
                  | Inr c \<Rightarrow>
                      (case get (frames s) e c of
                         None \<Rightarrow> Inl UB_null
                       | Some found \<Rightarrow> Inr (found, s)))
               else if type nd = T_LIST then
                 (if v_list nd = [] then Inr (nil, s)
                  else
                    (case eval h k (v_list nd ! 0) e s of
                       Inl err \<Rightarrow> Inl err
                     | Inr (func, s1) \<Rightarrow>
                         (case node_at s1 func of
                            Inl err \<Rightarrow> Inl err
                          | Inr fnode \<Rightarrow>
                              if type fnode = T_SPECIAL then
                                (case v_builtin fnode of
                                   Inl err \<Rightarrow> Inl err
                                 | Inr ptr \<Rightarrow>
                                     call h (eval h k) (apply_func h k) k ptr (Ref n) e s1)
                              else if type fnode = T_BUILTIN \<or> type fnode = T_FN then
                                (case eval_operands (eval h k) k n 1 [] e s1 of
                                   Inl err \<Rightarrow> Inl err
                                 | Inr (args, s2) \<Rightarrow>
                                     (case new_environment
                                             \<lparr>env = Map.empty, outer = outer_env fnode\<rparr> s2 of
                                        (senv2, s3) \<Rightarrow> apply_func h k func args senv2 s3))
                              else Inr (nil, s1))))
               else Inr (n, s)))"
| "apply_func h fuel func args e s =
     (case fuel of
        0 \<Rightarrow> Inl Out_of_fuel
      | Suc k \<Rightarrow>
          (case node_at s func of
             Inl err \<Rightarrow> Inl err
           | Inr fnode \<Rightarrow>
               if type fnode = T_BUILTIN then
                 (case v_builtin fnode of
                    Inl err \<Rightarrow> Inl err
                  | Inr ptr \<Rightarrow> call h (eval h k) (apply_func h k) k ptr (Local args) e s)
               else if type fnode = T_FN then
                 (case enter_function fnode args s of
                    Inl err \<Rightarrow> Inl err
                  | Inr (local_env, s2) \<Rightarrow>
                      (let last_i = size_t_pred (length (v_list fnode)) in
                       if last_i < 2 then Inr (nil, s2)
                       else
                         (case apply_body (eval h k) k func 2 last_i local_env s2 of
                            Inl err \<Rightarrow> Inl err
                          | Inr s3 \<Rightarrow>
                              (case vec s3 (Ref func) of
                                 Inl err \<Rightarrow> Inl err
                               | Inr f \<Rightarrow>
                                   (case elem f last_i of
                                      Inl err \<Rightarrow> Inl err
                                    | Inr form \<Rightarrow> eval h k form local_env s3)))))
               else Inr (nil, s)))"


subsection \<open>Reader\<close>

definition number_token :: "string \<Rightarrow> bool" where
  "number_token tok \<longleftrightarrow>
     is_digit (tok ! 0) \<or> (tok ! 0 = CHR ''-'' \<and> length tok \<ge> 2 \<and> is_digit (tok ! 1))"

text \<open>
  The loop of \<open>Parser::parse\<close>, from token \<open>pos\<close> with the forms \<open>res\<close> read so far; it
  returns the position it stopped at. \<open>char\<close> is taken to be signed, so \<open>tok[0] < 0\<close>
  holds for a first byte of 128 or more. The bound counts the calls.
\<close>

fun parse_from ::
  "host \<Rightarrow> nat \<Rightarrow> string list \<Rightarrow> nat \<Rightarrow> form list \<Rightarrow> symtab
     \<Rightarrow> error + (form list \<times> nat \<times> symtab)" where
  "parse_from h fuel tokens pos res st =
     (case fuel of
        0 \<Rightarrow> Inl Out_of_fuel
      | Suc k \<Rightarrow>
          if pos < length tokens then
            (let tok = tokens ! pos in
             if tok = [] then Inl Out_of_range
             else if (of_char (tok ! 0) :: nat) \<ge> 128 then Inr (res, pos, st)
             else if tok ! 0 = CHR 0x22 then
               parse_from h k tokens (pos + 1) (res @ [form_string (tl tok)]) st
             else if tok = ''('' then
               (case parse_from h k tokens (pos + 1) [] st of
                  Inl err \<Rightarrow> Inl err
                | Inr (sub, pos', st') \<Rightarrow>
                    parse_from h k tokens (pos' + 1) (res @ [form_list sub]) st')
             else if tok = '')'' then Inr (res, pos, st)
             else if number_token tok then
               (if CHR ''.'' \<in> set tok \<or> CHR ''e'' \<in> set tok then
                  parse_from h k tokens (pos + 1) (res @ [form_double (atof h tok)]) st
                else
                  (case atoi tok of
                     Inl err \<Rightarrow> Inl err
                   | Inr i \<Rightarrow> parse_from h k tokens (pos + 1) (res @ [form_int i]) st))
             else
               (case ToCode tok st of
                  (c, st') \<Rightarrow> parse_from h k tokens (pos + 1) (res @ [form_symbol tok c]) st'))
          else Inr (res, pos, st))"

definition parse :: "host \<Rightarrow> string \<Rightarrow> symtab \<Rightarrow> error + (form list \<times> symtab)" where
  "parse h text st =
     (case tokenize text of
        Inl err \<Rightarrow> Inl err
      | Inr tokens \<Rightarrow>
          (case parse_from h (Suc (length tokens)) tokens 0 [] st of
             Inl err \<Rightarrow> Inl err
           | Inr (res, pos, st') \<Rightarrow> Inr (res, st')))"

subsection \<open>Macro expander and compile pass\<close>

text \<open>\<open>apply_macro\<close>: the substitution of the bindings \<open>vars\<close> into a macro body. An
  element named \<open>...\<close> is replaced by the elements of the list bound to that name;
  \<open>vars[b->v_string]\<close> on a missing key yields an empty pointer.\<close>

fun apply_macro :: "(string \<rightharpoonup> form) \<Rightarrow> form \<Rightarrow> error + form"
and apply_macro_each :: "(string \<rightharpoonup> form) \<Rightarrow> form list \<Rightarrow> error + form list"
where
  "apply_macro vars The_nil =
     (case vars [] of Some v \<Rightarrow> Inr v | None \<Rightarrow> Inr The_nil)"
| "apply_macro vars (Form ty un bstr bvec) =
     (if ty = T_LIST then
        (case apply_macro_each vars bvec of
           Inl err \<Rightarrow> Inl err
         | Inr res \<Rightarrow> Inr (form_list res))
      else
        (case vars bstr of
           Some v \<Rightarrow> Inr v
         | None \<Rightarrow> Inr (Form ty un bstr bvec)))"
| "apply_macro_each vars [] = Inr []"
| "apply_macro_each vars (b # bs) =
     (if f_string b = ''...'' then
        (case vars ''...'' of
           None \<Rightarrow> Inl UB_null
         | Some vargs \<Rightarrow>
             (case apply_macro_each vars bs of
                Inl err \<Rightarrow> Inl err
              | Inr res \<Rightarrow> Inr (f_list vargs @ res)))
      else
        (case apply_macro vars b of
           Inl err \<Rightarrow> Inl err
         | Inr r \<Rightarrow>
             (case apply_macro_each vars bs of
                Inl err \<Rightarrow> Inl err
              | Inr res \<Rightarrow> Inr (r # res))))"

text \<open>The loop of \<open>macroexpand\<close> that binds the parameters \<open>argsyms\<close>, from index \<open>i\<close>, to
  the operands in \<open>nList\<close>.\<close>

fun bind_macro_arguments ::
  "form list \<Rightarrow> form list \<Rightarrow> nat \<Rightarrow> (string \<rightharpoonup> form) \<Rightarrow> error + (string \<rightharpoonup> form)" where
  "bind_macro_arguments [] nList i macrovars = Inr macrovars"
| "bind_macro_arguments (a # argsyms) nList i macrovars =
     (if f_string a = ''...'' then
        Inr (macrovars(''...'' \<mapsto> form_list (drop (i + 1) nList)))
      else
        (case elem_at nList (i + 1) of
           Inl err \<Rightarrow> Inl err
         | Inr v \<Rightarrow> bind_macro_arguments argsyms nList (i + 1) (macrovars(f_string a \<mapsto> v))))"

definition macroexpand :: "macro_table \<Rightarrow> form \<Rightarrow> error + form" where
  "macroexpand ms n =
     (let nList = f_list n in
      case elem nList 0 of
        Inl err \<Rightarrow> Inl err
      | Inr hd_form \<Rightarrow>
          (case ms (f_string hd_form) of
             Some (params, body) \<Rightarrow>
               (case bind_macro_arguments (f_list params) nList 0 Map.empty of
                  Inl err \<Rightarrow> Inl err
                | Inr macrovars \<Rightarrow> apply_macro macrovars body)
           | None \<Rightarrow> Inr n))"

text \<open>\<open>compile\<close>. The loop over the children takes the compiler for one form as its
  argument; \<open>compile\<close> passes itself. Macro expansion need not terminate, so \<open>compile\<close>
  takes a bound on the depth of its calls.\<close>

fun compile_each ::
  "(form \<Rightarrow> macro_table \<Rightarrow> error + (form \<times> macro_table)) \<Rightarrow> form list \<Rightarrow> macro_table
     \<Rightarrow> error + (form list \<times> macro_table)" where
  "compile_each cmp [] ms = Inr ([], ms)"
| "compile_each cmp (c # cs) ms =
     (case cmp c ms of
        Inl err \<Rightarrow> Inl err
      | Inr (r, ms1) \<Rightarrow>
          (case compile_each cmp cs ms1 of
             Inl err \<Rightarrow> Inl err
           | Inr (rs, ms2) \<Rightarrow> Inr (r # rs, ms2)))"

fun compile :: "nat \<Rightarrow> form \<Rightarrow> macro_table \<Rightarrow> error + (form \<times> macro_table)" where
  "compile fuel n ms =
     (case fuel of
        0 \<Rightarrow> Inl Out_of_fuel
      | Suc k \<Rightarrow>
          if f_type n = T_LIST then
            (if length (f_list n) = 0 then Inr (n, ms)
             else
               (case compile k (f_list n ! 0) ms of
                  Inl err \<Rightarrow> Inl err
                | Inr (func, ms1) \<Rightarrow>
                    if f_type func = T_SYMBOL \<and> f_string func = ''defmacro'' then
                      (case elem (f_list n) 2 of
                         Inl err \<Rightarrow> Inl err
                       | Inr params \<Rightarrow>
                           (case elem (f_list n) 3 of
                              Inl err \<Rightarrow> Inl err
                            | Inr body \<Rightarrow>
                                Inr (The_nil, ms1(f_string (f_list n ! 1) \<mapsto> (params, body)))))
                    else if f_type func = T_SYMBOL \<and> f_string func = ''quote'' then Inr (n, ms1)
                    else if ms1 (f_string func) \<noteq> None then
                      (case macroexpand ms1 n of
                         Inl err \<Rightarrow> Inl err
                       | Inr expanded \<Rightarrow> compile k expanded ms1)
                    else
                      (case compile_each (compile k) (f_list n) ms1 of
                         Inl err \<Rightarrow> Inl err
                       | Inr (r, ms2) \<Rightarrow> Inr (form_list r, ms2))))
          else Inr (n, ms))"

definition compile_all :: "nat \<Rightarrow> form list \<Rightarrow> macro_table \<Rightarrow> error + (form list \<times> macro_table)" where
  "compile_all fuel lst ms = compile_each (compile fuel) lst ms"

subsection \<open>From a source string to a value\<close>

text \<open>The compiled forms enter the node store: every node of a form becomes a node of the
  store, children first.\<close>

fun load :: "form \<Rightarrow> state \<Rightarrow> snode \<times> state"
and load_each :: "form list \<Rightarrow> state \<Rightarrow> snode list \<times> state"
where
  "load The_nil s = (nil, s)"
| "load (Form ty un str lst) s =
     (case load_each lst s of
        (ps, s1) \<Rightarrow>
          new_node \<lparr>type = ty, u = un, v_string = str, v_list = ps, outer_env = None\<rparr> s1)"
| "load_each [] s = ([], s)"
| "load_each (c # cs) s =
     (case load c s of
        (p, s1) \<Rightarrow> (case load_each cs s1 of (ps, s2) \<Rightarrow> (p # ps, s2)))"

definition eval_all :: "host \<Rightarrow> nat \<Rightarrow> snode list \<Rightarrow> state \<Rightarrow> error + (snode \<times> state)" where
  "eval_all h fuel lst s =
     (if lst = [] then Inr (nil, s)
      else
        (case global_env s of
           None \<Rightarrow> Inl UB_null
         | Some g \<Rightarrow>
             (let last_i = size_t_pred (length lst) in
              case eval_each (eval h fuel) fuel (Local lst) 0 last_i g s of
                Inl err \<Rightarrow> Inl err
              | Inr s1 \<Rightarrow> eval h fuel (lst ! last_i) g s1)))"

definition eval_string :: "host \<Rightarrow> nat \<Rightarrow> string \<Rightarrow> state \<Rightarrow> error + (snode \<times> state)" where
  "eval_string h fuel text s =
     (case parse h text (symbols s) of
        Inl err \<Rightarrow> Inl err
      | Inr (vec0, st) \<Rightarrow>
          (case compile_all fuel vec0 (macros s) of
             Inl err \<Rightarrow> Inl err
           | Inr (compiled, ms) \<Rightarrow>
               (case load_each compiled (s\<lparr>symbols := st, macros := ms\<rparr>) of
                  (lst, s1) \<Rightarrow> eval_all h fuel lst s1)))"

subsection \<open>Initialization\<close>





section \<open>Verified properties\<close>

text \<open>The recursion equations of the evaluator are unfolded on demand only.\<close>

declare eval.simps [simp del] apply_func.simps [simp del] eval_operands.simps [simp del]
  eval_each.simps [simp del] eval_until.simps [simp del] while_loop.simps [simp del]
  fold_loop.simps [simp del] map_loop.simps [simp del] filter_loop.simps [simp del]
  apply_body.simps [simp del] parse_from.simps [simp del] compile.simps [simp del]

subsection \<open>Initialization\<close>





subsection \<open>Tokenizer\<close>

lemma tokenize_unterminated_string:
  "tokenize [CHR ''a'', CHR 0x22, CHR ''b''] = Inr [[CHR ''a''], [CHR 0x22, CHR ''b'']]"
  by (simp add: tokenize_def last_pos_def at_def emit_def is_space_def)

text \<open>
  Claim C2 says that \<open>tokenize\<close> returns a token sequence for every input. On the empty
  string \<open>last\<close> wraps to \<open>2 ^ 64 - 1\<close>, the loop is entered and \<open>s.at(0)\<close> throws; in a
  string literal whose last character is a backslash, the escape reads \<open>s.at(pos + 1)\<close>
  behind the end of the buffer and throws as well.
\<close>

theorem tokenize_throws:
  "tokenize [] = Inl Out_of_range \<and> tokenize [CHR 0x22, CHR 0x5C] = Inl Out_of_range"
  by (simp add: tokenize_def last_pos_def at_def emit_def is_space_def)

subsection \<open>Arithmetic\<close>

lemmas node_defs =
  Node_nil_def Node_int_def Node_double_def Node_bool_def Node_string_def Node_list_def
  Node_builtin_def make_special_def Node_symbol_def

lemmas union_defs = v_int_def v_double_def v_bool_def code_def v_builtin_def

lemmas constant_defs = node_true_def node_false_def node_0_def node_1_def nil_def

text \<open>The operands after the first, as a fold of their coercions.\<close>

lemma int_operands_plus:
  "int_operands h s (\<lambda>sm x. Inr (sm + x)) i ps = Inr r \<Longrightarrow>
     \<exists>xs. length xs = length ps
        \<and> (\<forall>j < length ps. Inr (xs ! j) = (case node_at s (ps ! j) of Inl e \<Rightarrow> Inl e | Inr n \<Rightarrow> to_int h n))
        \<and> r = foldl (+) i xs"
proof (induction ps arbitrary: i)
  case Nil
  then show ?case by simp
next
  case (Cons p ps)
  from Cons.prems obtain n x where n: "node_at s p = Inr n" and x: "to_int h n = Inr x"
    and rest: "int_operands h s (\<lambda>sm x. Inr (sm + x)) (i + x) ps = Inr r"
    by (auto split: sum.splits)
  from Cons.IH [OF rest] obtain xs where xs: "length xs = length ps"
    "\<forall>j < length ps. Inr (xs ! j) = (case node_at s (ps ! j) of Inl e \<Rightarrow> Inl e | Inr n \<Rightarrow> to_int h n)"
    "r = foldl (+) (i + x) xs"
    by blast
  have "\<forall>j < length (p # ps).
          Inr ((x # xs) ! j) = (case node_at s ((p # ps) ! j) of Inl e \<Rightarrow> Inl e | Inr n \<Rightarrow> to_int h n)"
    using n x xs(2) by (auto simp: nth_Cons split: nat.splits)
  with xs(1,3) show ?case
    by (intro exI [of _ "x # xs"]) simp
qed

text \<open>With an \<open>int\<close> first, \<open>+\<close> returns a fresh \<open>int\<close> node: the first operand's \<open>v_int\<close>
  plus the \<open>to_int\<close> of every later operand.\<close>

lemma builtin_plus_int_first:
  assumes "node_at s a = Inr first" and "type first = T_INT" and "v_int first = Inr i"
    and "builtin_plus h (a # ps) e s = Inr (r, s')"
  shows "\<exists>xs. length xs = length ps
           \<and> (\<forall>j < length ps. Inr (xs ! j) = (case node_at s (ps ! j) of Inl e \<Rightarrow> Inl e | Inr n \<Rightarrow> to_int h n))
           \<and> r = length (nodes s) \<and> s' = s\<lparr>nodes := nodes s @ [Node_int (foldl (+) i xs)]\<rparr>"
proof -
  from assms obtain total where
    total: "int_operands h s (\<lambda>sm x. Inr (sm + x)) i ps = Inr total"
    and res: "(r, s') = new_node (Node_int total) s"
    by (auto simp: builtin_plus_def arith_def split: sum.splits)
  from int_operands_plus [OF total] res show ?thesis
    by (auto simp: new_node_def)
qed

text \<open>With a \<open>double\<close> first, the later operands are coerced by \<open>to_double\<close>; the first
  is taken as it is.\<close>

lemma builtin_plus_double_first:
  assumes "node_at s a = Inr first" and "type first = T_DOUBLE" and "v_double first = Inr d"
    and "node_at s b = Inr second" and "to_double h second = Inr x"
  shows "builtin_plus h [a, b] e s = Inr (length (nodes s), s\<lparr>nodes := nodes s @ [Node_double (d_add h d x)]\<rparr>)"
  using assms by (simp add: builtin_plus_def arith_def new_node_def)

text \<open>A first operand that is neither an \<open>int\<close> nor a \<open>double\<close> is not coerced: the
  primitive reads its \<open>v_double\<close> member, which such a node does not hold.\<close>

lemma arith_first_not_coerced:
  assumes "node_at s a = Inr first" and "type first \<noteq> T_INT" and "v_double first = Inl UB_union"
  shows "arith h ident iop dop (a # ps) e s = Inl UB_union"
  using assms by (simp add: arith_def)

text \<open>
  Claim C3 says that for a first operand that is not an \<open>int\<close> (a bool, a string, nil)
  the result is the \<open>double\<close> obtained from the \<open>to_double\<close> of every operand, the first
  included. For \<open>(+ "1.5" 2)\<close> that would be \<open>atof "1.5" + 2.0\<close>. The code reads
  \<open>first->v_double\<close> instead, a union member that a string node (and a bool node) never
  sets: the read is undefined, and \<open>to_double\<close> of the first operand is never taken. The
  same holds for \<open>-\<close>, \<open>*\<close> and \<open>/\<close>, and for \<open>(+ true 1)\<close>.
\<close>

theorem arith_first_operand_read_raw:
  "builtin_plus h [5, 6] e (static_init\<lparr>nodes := nodes static_init @ [Node_string ''1.5'', Node_int 2]\<rparr>)
     = Inl UB_union
   \<and> builtin_minus h [5, 6] e (static_init\<lparr>nodes := nodes static_init @ [Node_string ''1.5'', Node_int 2]\<rparr>)
     = Inl UB_union
   \<and> builtin_mul h [5, 6] e (static_init\<lparr>nodes := nodes static_init @ [Node_string ''1.5'', Node_int 2]\<rparr>)
     = Inl UB_union
   \<and> builtin_div h [5, 6] e (static_init\<lparr>nodes := nodes static_init @ [Node_string ''1.5'', Node_int 2]\<rparr>)
     = Inl UB_union
   \<and> builtin_plus h [node_true, node_1] e static_init = Inl UB_union
   \<and> to_double h (Node_string ''1.5'') = Inr (atof h ''1.5'')"
  by (simp add: builtin_plus_def builtin_minus_def builtin_mul_def builtin_div_def arith_def
      static_init_def node_at_def node_defs union_defs constant_defs to_double_def)


subsection \<open>Environment lookup\<close>








subsection \<open>Symbol interning\<close>

definition symtab_ok :: "symtab \<Rightarrow> bool" where
  "symtab_ok t \<longleftrightarrow>
     symcode t = zip (symname t) [0..<length (symname t)] \<and> distinct (symname t)"

lemma symtab_ok_lookup:
  "symtab_ok t \<Longrightarrow>
     map_of (symcode t) n = Some c \<longleftrightarrow> c < length (symname t) \<and> symname t ! c = n"
  unfolding symtab_ok_def
  by (auto simp: map_of_zip_nth in_set_zip dest!: map_of_SomeD intro!: map_of_is_SomeI)

lemma symtab_ok_lookup_None:
  "symtab_ok t \<Longrightarrow> map_of (symcode t) n = None \<longleftrightarrow> n \<notin> set (symname t)"
proof -
  assume ok: "symtab_ok t"
  have "map_of (symcode t) n = None \<longleftrightarrow> (\<forall>c. map_of (symcode t) n \<noteq> Some c)"
    by auto
  also have "\<dots> \<longleftrightarrow> (\<forall>c. \<not> (c < length (symname t) \<and> symname t ! c = n))"
    using ok by (simp add: symtab_ok_lookup)
  also have "\<dots> \<longleftrightarrow> n \<notin> set (symname t)"
    by (auto simp: in_set_conv_nth)
  finally show ?thesis .
qed

lemma symtab_ok_empty: "symtab_ok empty_symtab"
  by (simp add: symtab_ok_def empty_symtab_def)

lemma ToCode_known:
  "map_of (symcode t) n = Some c \<Longrightarrow> ToCode n t = (c, t)"
  by (simp add: ToCode_def)

lemma ToCode_fresh:
  "map_of (symcode t) n = None \<Longrightarrow>
     ToCode n t = (length (symcode t),
       t\<lparr>symcode := symcode t @ [(n, length (symcode t))], symname := symname t @ [n]\<rparr>)"
  by (simp add: ToCode_def Let_def)

lemma symtab_ok_length: "symtab_ok t \<Longrightarrow> length (symcode t) = length (symname t)"
  by (simp add: symtab_ok_def)

lemma symtab_ok_ToCode:
  assumes "symtab_ok t"
  shows "symtab_ok (snd (ToCode n t))"
proof (cases "map_of (symcode t) n")
  case (Some c)
  with assms show ?thesis by (simp add: ToCode_known)
next
  case None
  with assms have "n \<notin> set (symname t)" by (simp add: symtab_ok_lookup_None)
  with assms None show ?thesis
    by (simp add: ToCode_fresh symtab_ok_def)
qed

lemma symname_ToCode:
  assumes "symtab_ok t"
  shows "symname (snd (ToCode n t)) = (if n \<in> set (symname t) then symname t else symname t @ [n])"
proof (cases "map_of (symcode t) n")
  case (Some c)
  with assms have "n \<in> set (symname t)" by (auto simp: symtab_ok_lookup)
  with Some show ?thesis by (simp add: ToCode_known)
next
  case None
  with assms have "n \<notin> set (symname t)" by (simp add: symtab_ok_lookup_None)
  with None show ?thesis by (simp add: ToCode_fresh)
qed

lemma symtab_ok_intern_all: "symtab_ok t \<Longrightarrow> symtab_ok (intern_all ns t)"
  by (induction ns arbitrary: t) (simp_all add: symtab_ok_ToCode)

lemma symname_intern_all:
  "symtab_ok t \<Longrightarrow>
     symname (intern_all ns t) =
       symname t @ filter (\<lambda>m. m \<notin> set (symname t)) (first_occurrences ns)"
proof (induction ns arbitrary: t)
  case Nil
  then show ?case by simp
next
  case (Cons n ns)
  let ?t' = "snd (ToCode n t)"
  have ok': "symtab_ok ?t'" using Cons.prems by (rule symtab_ok_ToCode)
  have names: "symname ?t' = (if n \<in> set (symname t) then symname t else symname t @ [n])"
    using Cons.prems by (rule symname_ToCode)
  show ?case
  proof (cases "n \<in> set (symname t)")
    case True
    have "filter (\<lambda>m. m \<notin> set (symname t)) (filter (\<lambda>m. m \<noteq> n) (first_occurrences ns))
            = filter (\<lambda>m. m \<notin> set (symname t)) (first_occurrences ns)"
      using True by (auto intro: filter_cong)
    with True names Cons.IH [OF ok'] show ?thesis by simp
  next
    case False
    have "filter (\<lambda>m. m \<notin> set (symname t)) (filter (\<lambda>m. m \<noteq> n) (first_occurrences ns))
            = filter (\<lambda>m. m \<notin> set (symname t @ [n])) (first_occurrences ns)"
      by (auto intro: filter_cong)
    with False names Cons.IH [OF ok'] show ?thesis by simp
  qed
qed

lemma intern_all_snoc: "intern_all (ns @ [n]) t = snd (ToCode n (intern_all ns t))"
  by (induction ns arbitrary: t) simp_all

text \<open>
  Claim C6. In a table reached by interning any sequence \<open>ns\<close> of names from the empty
  table, \<open>ToCode n\<close> returns a code \<open>c\<close> such that: a second call returns the same code
  and leaves the table alone; the name table holds \<open>n\<close> at index \<open>c\<close>; every mapping
  present before the call is still present with the same code; and the name table is
  exactly the list of distinct names in the order of their first interning, each name
  carrying its index as code, so the \<open>k\<close>-th distinct name has code \<open>k - 1\<close>.
\<close>

theorem ToCode_interning:
  assumes "t = intern_all ns empty_symtab" and "ToCode n t = (c, t')"
  shows "ToCode n t' = (c, t')
       \<and> c < length (symname t') \<and> symname t' ! c = n
       \<and> (\<forall>m k. map_of (symcode t) m = Some k \<longrightarrow> map_of (symcode t') m = Some k)
       \<and> symname t' = first_occurrences (ns @ [n])
       \<and> (\<forall>k < length (symname t'). map_of (symcode t') (symname t' ! k) = Some k)"
proof -
  have ok: "symtab_ok t"
    using assms(1) symtab_ok_intern_all [OF symtab_ok_empty] by simp
  have t': "t' = snd (ToCode n t)" using assms(2) by simp
  have ok': "symtab_ok t'" using ok t' by (simp add: symtab_ok_ToCode)
  have "t' = intern_all (ns @ [n]) empty_symtab"
    using t' assms(1) by (simp add: intern_all_snoc)
  then have names: "symname t' = first_occurrences (ns @ [n])"
    using symname_intern_all [OF symtab_ok_empty, of "ns @ [n]"]
    by (simp add: empty_symtab_def)
  have code: "map_of (symcode t') n = Some c"
  proof (cases "map_of (symcode t) n")
    case (Some c0)
    with assms(2) show ?thesis by (simp add: ToCode_known)
  next
    case None
    with assms(2) show ?thesis by (auto simp: ToCode_fresh map_add_Some_iff)
  qed
  have keep: "map_of (symcode t) m = Some k \<Longrightarrow> map_of (symcode t') m = Some k" for m k
  proof (cases "map_of (symcode t) n")
    case (Some c0)
    assume "map_of (symcode t) m = Some k"
    with Some assms(2) show ?thesis by (simp add: ToCode_known)
  next
    case None
    assume "map_of (symcode t) m = Some k"
    with None assms(2) show ?thesis by (auto simp: ToCode_fresh map_add_Some_iff)
  qed
  have dense: "map_of (symcode t') (symname t' ! k) = Some k" if "k < length (symname t')" for k
    using that ok' by (simp add: symtab_ok_lookup)
  from code have "ToCode n t' = (c, t')" by (rule ToCode_known)
  moreover from code ok' have "c < length (symname t') \<and> symname t' ! c = n"
    by (simp add: symtab_ok_lookup)
  ultimately show ?thesis using keep names dense by blast
qed

theorem ToCode_interning_witness:
  "ToCode ''b'' (intern_all [''a'', ''b'', ''a''] empty_symtab)
     = (1, \<lparr>symcode = [(''a'', 0), (''b'', 1)], symname = [''a'', ''b'']\<rparr>)
   \<and> ToCode ''b'' \<lparr>symcode = [(''a'', 0), (''b'', 1)], symname = [''a'', ''b'']\<rparr>
     = (1, \<lparr>symcode = [(''a'', 0), (''b'', 1)], symname = [''a'', ''b'']\<rparr>)
   \<and> [''a'', ''b''] ! 1 = ''b''
   \<and> [''a'', ''b''] = first_occurrences [''a'', ''b'', ''a'', ''b'']"
proof -
  have run: "ToCode ''b'' (intern_all [''a'', ''b'', ''a''] empty_symtab)
     = (1, \<lparr>symcode = [(''a'', 0), (''b'', 1)], symname = [''a'', ''b'']\<rparr>)"
    by (simp add: ToCode_def empty_symtab_def)
  show ?thesis
    using run ToCode_interning [OF refl run] by simp
qed

subsection \<open>Bindings made by \<open>def\<close> and \<open>set\<close>\<close>








subsection \<open>The compile pass on its own output\<close>

text \<open>A form in which no node is the symbol \<open>defmacro\<close>.\<close>

fun defmacro_free :: "form \<Rightarrow> bool" where
  "defmacro_free The_nil = True"
| "defmacro_free (Form ty un str lst) =
     (\<not> (ty = T_SYMBOL \<and> str = ''defmacro'') \<and> list_all defmacro_free lst)"

definition bodies_defmacro_free :: "macro_table \<Rightarrow> bool" where
  "bodies_defmacro_free ms \<longleftrightarrow>
     (\<forall>name params body. ms name = Some (params, body) \<longrightarrow> defmacro_free body)"

lemma defmacro_free_head:
  "defmacro_free n \<Longrightarrow> \<not> (f_type n = T_SYMBOL \<and> f_string n = ''defmacro'')"
  by (cases n) auto

lemma defmacro_free_children: "defmacro_free n \<Longrightarrow> list_all defmacro_free (f_list n)"
  by (cases n) auto

lemma defmacro_free_form_list: "defmacro_free (form_list xs) = list_all defmacro_free xs"
  by (simp add: form_list_def)

lemma apply_macro_defmacro_free:
  shows "(\<forall>name v. vars name = Some v \<longrightarrow> defmacro_free v) \<Longrightarrow> defmacro_free body
           \<Longrightarrow> apply_macro vars body = Inr r \<Longrightarrow> defmacro_free r"
    and "(\<forall>name v. vars name = Some v \<longrightarrow> defmacro_free v) \<Longrightarrow> list_all defmacro_free bs
           \<Longrightarrow> apply_macro_each vars bs = Inr rs \<Longrightarrow> list_all defmacro_free rs"
proof (induction vars body and vars bs arbitrary: r and rs rule: apply_macro_apply_macro_each.induct)
  case (1 vars)
  then show ?case by (auto split: option.splits)
next
  case (2 vars ty un bstr bvec)
  show ?case
  proof (cases "ty = T_LIST")
    case True
    with "2.prems" obtain res where res: "apply_macro_each vars bvec = Inr res"
      and r: "r = form_list res"
      by (auto split: sum.splits)
    from "2.prems"(2) have "list_all defmacro_free bvec" by simp
    with "2.IH" [OF True "2.prems"(1) _ res] r show ?thesis
      by (simp add: defmacro_free_form_list)
  next
    case False
    with "2.prems" show ?thesis
      by (auto split: option.splits)
  qed
next
  case (3 vars)
  then show ?case by simp
next
  case (4 vars b bs)
  note vars = "4.prems"(1)
  from "4.prems"(2) have b: "defmacro_free b" and bs: "list_all defmacro_free bs"
    by simp_all
  show ?case
  proof (cases "f_string b = ''...''")
    case True
    with "4.prems"(3) obtain vargs res where vargs: "vars ''...'' = Some vargs"
      and res: "apply_macro_each vars bs = Inr res" and rs: "rs = f_list vargs @ res"
      by (auto split: option.splits sum.splits)
    from vars vargs have "defmacro_free vargs" by blast
    then have "list_all defmacro_free (f_list vargs)" by (rule defmacro_free_children)
    with "4.IH"(1) [OF True vargs vars bs res] rs show ?thesis by simp
  next
    case False
    with "4.prems"(3) obtain r0 res where r0: "apply_macro vars b = Inr r0"
      and res: "apply_macro_each vars bs = Inr res" and rs: "rs = r0 # res"
      by (auto split: sum.splits)
    from "4.IH"(2) [OF False vars b r0] "4.IH"(3) [OF False r0 vars bs res] rs
    show ?thesis by simp
  qed
qed

lemma bind_macro_arguments_defmacro_free:
  "list_all defmacro_free nList \<Longrightarrow> \<forall>name v. vars name = Some v \<longrightarrow> defmacro_free v \<Longrightarrow>
     bind_macro_arguments argsyms nList i vars = Inr vars' \<Longrightarrow>
     \<forall>name v. vars' name = Some v \<longrightarrow> defmacro_free v"
proof (induction argsyms arbitrary: i vars)
  case Nil
  then show ?case by simp
next
  case (Cons a argsyms)
  show ?case
  proof (cases "f_string a = ''...''")
    case True
    from Cons.prems(1) have "list_all defmacro_free (drop (i + 1) nList)"
      by (auto simp: list_all_iff dest: in_set_dropD)
    with True Cons.prems show ?thesis
      by (auto simp: defmacro_free_form_list split: if_splits)
  next
    case False
    with Cons.prems(3) obtain v where v: "elem_at nList (i + 1) = Inr v"
      and rest: "bind_macro_arguments argsyms nList (i + 1) (vars(f_string a \<mapsto> v)) = Inr vars'"
      by (auto split: sum.splits)
    from v Cons.prems(1) have "defmacro_free v"
      by (auto simp: elem_at_def list_all_length split: if_splits)
    with Cons.prems(2) have "\<forall>name w. (vars(f_string a \<mapsto> v)) name = Some w \<longrightarrow> defmacro_free w"
      by auto
    from Cons.IH [OF Cons.prems(1) this rest] show ?thesis .
  qed
qed

lemma macroexpand_defmacro_free:
  assumes "bodies_defmacro_free ms" and "defmacro_free n" and "macroexpand ms n = Inr ex"
  shows "defmacro_free ex"
proof -
  from assms(3) obtain hd_form where hd_form: "elem (f_list n) 0 = Inr hd_form"
    by (auto simp: macroexpand_def Let_def split: sum.splits)
  show ?thesis
  proof (cases "ms (f_string hd_form)")
    case None
    with assms(3) hd_form have "ex = n" by (simp add: macroexpand_def Let_def)
    with assms(2) show ?thesis by simp
  next
    case (Some pb)
    obtain params body where pb: "pb = (params, body)" by (cases pb)
    with assms(3) hd_form Some obtain macrovars where
      mv: "bind_macro_arguments (f_list params) (f_list n) 0 Map.empty = Inr macrovars"
      and ex: "apply_macro macrovars body = Inr ex"
      by (auto simp: macroexpand_def Let_def split: sum.splits)
    from assms(1) Some pb have body: "defmacro_free body"
      by (auto simp: bodies_defmacro_free_def)
    have "\<forall>name v. macrovars name = Some v \<longrightarrow> defmacro_free v"
      by (rule bind_macro_arguments_defmacro_free
            [OF defmacro_free_children [OF assms(2)] _ mv]) simp
    from apply_macro_defmacro_free(1) [OF this body ex] show ?thesis .
  qed
qed

text \<open>One level of \<open>compile\<close>, with the compiler \<open>cmp\<close> for the calls it makes to itself.\<close>

definition compile_step ::
  "(form \<Rightarrow> macro_table \<Rightarrow> error + (form \<times> macro_table)) \<Rightarrow> form \<Rightarrow> macro_table
     \<Rightarrow> error + (form \<times> macro_table)" where
  "compile_step cmp n ms =
     (if f_type n = T_LIST then
        (if length (f_list n) = 0 then Inr (n, ms)
         else
           (case cmp (f_list n ! 0) ms of
              Inl err \<Rightarrow> Inl err
            | Inr (func, ms1) \<Rightarrow>
                if f_type func = T_SYMBOL \<and> f_string func = ''defmacro'' then
                  (case elem (f_list n) 2 of
                     Inl err \<Rightarrow> Inl err
                   | Inr params \<Rightarrow>
                       (case elem (f_list n) 3 of
                          Inl err \<Rightarrow> Inl err
                        | Inr body \<Rightarrow>
                            Inr (The_nil, ms1(f_string (f_list n ! 1) \<mapsto> (params, body)))))
                else if f_type func = T_SYMBOL \<and> f_string func = ''quote'' then Inr (n, ms1)
                else if ms1 (f_string func) \<noteq> None then
                  (case macroexpand ms1 n of
                     Inl err \<Rightarrow> Inl err
                   | Inr expanded \<Rightarrow> cmp expanded ms1)
                else
                  (case compile_each cmp (f_list n) ms1 of
                     Inl err \<Rightarrow> Inl err
                   | Inr (r, ms2) \<Rightarrow> Inr (form_list r, ms2))))
      else Inr (n, ms))"

lemma compile_Suc: "compile (Suc k) n ms = compile_step (compile k) n ms"
  by (simp add: compile.simps [of "Suc k"] compile_step_def)

lemma compile_0: "compile 0 n ms = Inl Out_of_fuel"
  by (simp add: compile.simps [of 0])

lemma compile_each_mono:
  assumes "\<And>c ms r. cmp c ms = Inr r \<Longrightarrow> cmp' c ms = Inr r"
  shows "compile_each cmp cs ms = Inr r \<Longrightarrow> compile_each cmp' cs ms = Inr r"
proof (induction cs arbitrary: ms r)
  case Nil
  then show ?case by simp
next
  case (Cons c cs)
  from Cons.prems obtain g ms1 gs ms2 where c: "cmp c ms = Inr (g, ms1)"
    and cs: "compile_each cmp cs ms1 = Inr (gs, ms2)" and r: "r = (g # gs, ms2)"
    by (auto split: sum.splits)
  from assms [OF c] Cons.IH [OF cs] r show ?case by simp
qed

lemma compile_step_mono:
  assumes "\<And>c ms r. cmp c ms = Inr r \<Longrightarrow> cmp' c ms = Inr r"
    and "compile_step cmp n ms = Inr r"
  shows "compile_step cmp' n ms = Inr r"
proof (cases "f_type n = T_LIST \<and> length (f_list n) \<noteq> 0")
  case False
  with assms(2) show ?thesis by (auto simp: compile_step_def split: if_splits)
next
  case True
  with assms(2) obtain func ms1 where head: "cmp (f_list n ! 0) ms = Inr (func, ms1)"
    by (auto simp: compile_step_def split: sum.splits)
  note head' = assms(1) [OF head]
  consider (defmacro) "f_type func = T_SYMBOL \<and> f_string func = ''defmacro''"
    | (quote) "\<not> (f_type func = T_SYMBOL \<and> f_string func = ''defmacro'')"
        "f_type func = T_SYMBOL \<and> f_string func = ''quote''"
    | (macro) "\<not> (f_type func = T_SYMBOL \<and> f_string func = ''defmacro'')"
        "\<not> (f_type func = T_SYMBOL \<and> f_string func = ''quote'')" "ms1 (f_string func) \<noteq> None"
    | (other) "\<not> (f_type func = T_SYMBOL \<and> f_string func = ''defmacro'')"
        "\<not> (f_type func = T_SYMBOL \<and> f_string func = ''quote'')" "ms1 (f_string func) = None"
    by blast
  then show ?thesis
  proof cases
    case defmacro
    with True head head' assms(2) show ?thesis by (auto simp: compile_step_def)
  next
    case quote
    with True head head' assms(2) show ?thesis by (auto simp: compile_step_def)
  next
    case macro
    with True head assms(2) obtain expanded where ex: "macroexpand ms1 n = Inr expanded"
      and run: "cmp expanded ms1 = Inr r"
      by (auto simp: compile_step_def split: sum.splits)
    from assms(1) [OF run] macro True head' ex show ?thesis
      by (auto simp: compile_step_def)
  next
    case other
    with True head assms(2) obtain gs ms2 where
      each: "compile_each cmp (f_list n) ms1 = Inr (gs, ms2)" and r: "r = (form_list gs, ms2)"
      by (auto simp: compile_step_def split: sum.splits)
    from compile_each_mono [of cmp cmp', OF assms(1) each] other True head' r show ?thesis
      by (auto simp: compile_step_def)
  qed
qed

lemma compile_mono_Suc: "compile k n ms = Inr r \<Longrightarrow> compile (Suc k) n ms = Inr r"
proof (induction k arbitrary: n ms r)
  case 0
  then show ?case by (simp add: compile_0)
next
  case (Suc k)
  from Suc.prems have "compile_step (compile k) n ms = Inr r" by (simp add: compile_Suc)
  then have "compile_step (compile (Suc k)) n ms = Inr r"
    by (rule compile_step_mono [rotated]) (rule Suc.IH)
  then show ?case by (simp add: compile_Suc)
qed

lemma compile_mono: "compile k n ms = Inr r \<Longrightarrow> k \<le> m \<Longrightarrow> compile m n ms = Inr r"
  by (induction m) (auto simp: le_Suc_eq compile_mono_Suc)

lemma compile_each_fixed:
  "(\<And>g. g \<in> set gs \<Longrightarrow> cmp g ms = Inr (g, ms)) \<Longrightarrow> compile_each cmp gs ms = Inr (gs, ms)"
  by (induction gs) simp_all

lemma compile_each_same_table:
  assumes "\<And>c g ms'. c \<in> set cs \<Longrightarrow> cmp c ms = Inr (g, ms') \<Longrightarrow> ms' = ms \<and> Q g"
    and "compile_each cmp cs ms = Inr (gs, ms')"
  shows "ms' = ms \<and> list_all Q gs \<and> length gs = length cs
       \<and> (cs \<noteq> [] \<longrightarrow> cmp (cs ! 0) ms = Inr (gs ! 0, ms))"
  using assms
proof (induction cs arbitrary: gs ms')
  case Nil
  then show ?case by simp
next
  case (Cons c cs)
  from Cons.prems(2) obtain g ms1 rest ms2 where c: "cmp c ms = Inr (g, ms1)"
    and cs: "compile_each cmp cs ms1 = Inr (rest, ms2)" and gs: "gs = g # rest" "ms' = ms2"
    by (auto split: sum.splits)
  from Cons.prems(1) [of c g ms1] c have ms1: "ms1 = ms" and g: "Q g" by simp_all
  have "ms2 = ms \<and> list_all Q rest \<and> length rest = length cs
       \<and> (cs \<noteq> [] \<longrightarrow> cmp (cs ! 0) ms = Inr (rest ! 0, ms))"
    by (rule Cons.IH [OF _ cs [unfolded ms1]]) (rule Cons.prems(1), simp_all)
  with c ms1 g gs show ?case by simp
qed

lemma compile_fixed_point_aux:
  "bodies_defmacro_free ms \<Longrightarrow> defmacro_free n \<Longrightarrow> compile k n ms = Inr (g, ms') \<Longrightarrow>
     ms' = ms \<and> defmacro_free g \<and> (\<forall>m \<ge> k. compile m g ms = Inr (g, ms))"
proof (induction k arbitrary: n g ms')
  case 0
  then show ?case by (simp add: compile_0)
next
  case (Suc k)
  note table = Suc.prems(1) and n = Suc.prems(2)
  from Suc.prems(3) have step: "compile_step (compile k) n ms = Inr (g, ms')"
    by (simp add: compile_Suc)
  show ?case
  proof (cases "f_type n = T_LIST \<and> length (f_list n) \<noteq> 0")
    case False
    with step have g: "g = n" "ms' = ms"
      by (auto simp: compile_step_def split: if_splits)
    have "compile m n ms = Inr (n, ms)" if "Suc k \<le> m" for m
    proof -
      from that obtain m' where "m = Suc m'" by (cases m) simp_all
      with False show ?thesis by (auto simp: compile_Suc compile_step_def)
    qed
    with g n show ?thesis by simp
  next
    case True
    with step obtain func ms1 where head: "compile k (f_list n ! 0) ms = Inr (func, ms1)"
      by (auto simp: compile_step_def split: sum.splits)
    from n have children: "list_all defmacro_free (f_list n)" by (rule defmacro_free_children)
    with True have "defmacro_free (f_list n ! 0)" by (simp add: list_all_length)
    from Suc.IH [OF table this head] have ms1: "ms1 = ms" and func: "defmacro_free func"
      by simp_all
    from func have not_defmacro: "\<not> (f_type func = T_SYMBOL \<and> f_string func = ''defmacro'')"
      by (rule defmacro_free_head)
    note head = head [unfolded ms1]
    consider (quote) "f_type func = T_SYMBOL \<and> f_string func = ''quote''"
      | (macro) "\<not> (f_type func = T_SYMBOL \<and> f_string func = ''quote'')"
          "ms (f_string func) \<noteq> None"
      | (other) "\<not> (f_type func = T_SYMBOL \<and> f_string func = ''quote'')"
          "ms (f_string func) = None"
      by blast
    then show ?thesis
    proof cases
      case quote
      with True head not_defmacro step have g: "g = n" "ms' = ms"
        by (auto simp: compile_step_def)
      have "compile m n ms = Inr (n, ms)" if "Suc k \<le> m" for m
      proof -
        from that obtain m' where m: "m = Suc m'" "k \<le> m'" by (cases m) simp_all
        from compile_mono [OF head m(2)] True not_defmacro quote m(1) show ?thesis
          by (auto simp: compile_Suc compile_step_def)
      qed
      with g n show ?thesis by simp
    next
      case macro
      with True head not_defmacro step obtain expanded where
        ex: "macroexpand ms n = Inr expanded" and run: "compile k expanded ms = Inr (g, ms')"
        by (auto simp: compile_step_def split: sum.splits)
      from macroexpand_defmacro_free [OF table n ex] have "defmacro_free expanded" .
      from Suc.IH [OF table this run] show ?thesis by simp
    next
      case other
      let ?Q = "\<lambda>g. defmacro_free g \<and> (\<forall>m \<ge> k. compile m g ms = Inr (g, ms))"
      from other True head not_defmacro step obtain gs where
        each: "compile_each (compile k) (f_list n) ms = Inr (gs, ms')" and g: "g = form_list gs"
        by (auto simp: compile_step_def split: sum.splits)
      have "ms' = ms \<and> list_all ?Q gs \<and> length gs = length (f_list n)
            \<and> (f_list n \<noteq> [] \<longrightarrow> compile k (f_list n ! 0) ms = Inr (gs ! 0, ms))"
      proof (rule compile_each_same_table [OF _ each])
        fix c g0 ms0
        assume "c \<in> set (f_list n)" and c: "compile k c ms = Inr (g0, ms0)"
        with children have "defmacro_free c" by (simp add: list_all_iff)
        from Suc.IH [OF table this c] show "ms0 = ms \<and> ?Q g0" by simp
      qed
      with True head have ms': "ms' = ms" and gs: "list_all ?Q gs"
        and len: "length gs = length (f_list n)" and first: "gs ! 0 = func"
        by auto
      from gs have clean: "defmacro_free g"
        by (simp add: g defmacro_free_form_list list_all_iff)
      have "compile m g ms = Inr (g, ms)" if "Suc k \<le> m" for m
      proof -
        from that obtain m' where m: "m = Suc m'" "k \<le> m'" by (cases m) simp_all
        have fixed: "compile m' x ms = Inr (x, ms)" if "x \<in> set gs" for x
          using gs that m(2) by (simp add: list_all_iff)
        from len True have "gs \<noteq> []" by auto
        then have "gs ! 0 \<in> set gs" by simp
        from fixed [OF this] first have h: "compile m' (gs ! 0) ms = Inr (func, ms)" by simp
        from compile_each_fixed [of gs "compile m'" ms, OF fixed]
        have "compile_each (compile m') gs ms = Inr (gs, ms)" .
        with h \<open>gs \<noteq> []\<close> other not_defmacro show ?thesis
          by (auto simp: m(1) g compile_Suc compile_step_def form_list_def)
      qed
      with ms' clean show ?thesis by simp
    qed
  qed
qed

text \<open>
  Claim C8, as stated, says \<open>compile (compile f) = compile f\<close> for every form, up to a
  \<open>defmacro\<close> turning into \<open>nil\<close>. It fails for a form that uses a macro before the
  \<open>defmacro\<close> that defines it: the first pass leaves the use as it is and records the
  macro, the second pass expands the use.
\<close>

definition use_before_defmacro :: form where
  "use_before_defmacro =
     form_list [form_symbol ''begin'' 0,
       form_list [form_symbol ''foo'' 1, form_int 1],
       form_list [form_symbol ''defmacro'' 2, form_symbol ''foo'' 1,
         form_list [form_symbol ''x'' 3],
         form_list [form_symbol ''bar'' 4, form_symbol ''x'' 3]]]"

definition no_macros :: macro_table where
  "no_macros = Map.empty"

definition foo_macro :: macro_table where
  "foo_macro =
     [''foo'' \<mapsto> (form_list [form_symbol ''x'' 3],
                   form_list [form_symbol ''bar'' 4, form_symbol ''x'' 3])]"

theorem compile_not_fixed_point:
  "compile 5 use_before_defmacro no_macros
     = Inr (form_list [form_symbol ''begin'' 0,
              form_list [form_symbol ''foo'' 1, form_int 1], The_nil], foo_macro)
   \<and> compile 5 (form_list [form_symbol ''begin'' 0,
                  form_list [form_symbol ''foo'' 1, form_int 1], The_nil]) foo_macro
     = Inr (form_list [form_symbol ''begin'' 0,
              form_list [form_symbol ''bar'' 4, form_int 1], The_nil], foo_macro)
   \<and> form_list [form_symbol ''begin'' 0, form_list [form_symbol ''bar'' 4, form_int 1], The_nil]
     \<noteq> form_list [form_symbol ''begin'' 0, form_list [form_symbol ''foo'' 1, form_int 1], The_nil]"
  by (simp add: use_before_defmacro_def foo_macro_def no_macros_def compile.simps macroexpand_def
      elem_def elem_at_def form_list_def form_symbol_def form_int_def)

text \<open>
  Claim C8, amended. If neither the form nor the body of a macro in the table contains
  the symbol \<open>defmacro\<close>, a run of \<open>compile\<close> that returns leaves the macro table as it
  was, and \<open>compile\<close> on its result returns that result again, with the same bound and
  with every larger one.
\<close>

theorem compile_fixed_point:
  assumes "bodies_defmacro_free ms" and "defmacro_free n"
    and "compile k n ms = Inr (g, ms')"
  shows "ms' = ms \<and> (\<forall>m \<ge> k. compile m g ms = Inr (g, ms))"
  using compile_fixed_point_aux [OF assms] by simp

text \<open>The macro \<open>unless\<close> of the specification's scenario 5, and its use
  \<open>(unless false 42)\<close>.\<close>

definition unless_macro :: macro_table where
  "unless_macro =
     [''unless'' \<mapsto> (form_list [form_symbol ''c'' 1, form_symbol ''body'' 2],
                      form_list [form_symbol ''if'' 3, form_symbol ''c'' 1, form_symbol ''nil'' 4,
                                 form_symbol ''body'' 2])]"

theorem compile_fixed_point_witness:
  "compile 5 (form_list [form_symbol ''unless'' 0, form_symbol ''false'' 5, form_int 42]) unless_macro
     = Inr (form_list [form_symbol ''if'' 3, form_symbol ''false'' 5, form_symbol ''nil'' 4,
                       form_int 42], unless_macro)
   \<and> compile 5 (form_list [form_symbol ''if'' 3, form_symbol ''false'' 5, form_symbol ''nil'' 4,
                   form_int 42]) unless_macro
     = Inr (form_list [form_symbol ''if'' 3, form_symbol ''false'' 5, form_symbol ''nil'' 4,
                       form_int 42], unless_macro)"
proof -
  let ?n = "form_list [form_symbol ''unless'' 0, form_symbol ''false'' 5, form_int 42]"
  let ?g = "form_list [form_symbol ''if'' 3, form_symbol ''false'' 5, form_symbol ''nil'' 4,
                       form_int 42]"
  have table: "bodies_defmacro_free unless_macro"
    by (simp add: bodies_defmacro_free_def unless_macro_def form_list_def form_symbol_def)
  have n: "defmacro_free ?n"
    by (simp add: form_list_def form_symbol_def form_int_def)
  have run: "compile 5 ?n unless_macro = Inr (?g, unless_macro)"
    by (simp add: unless_macro_def compile.simps macroexpand_def
        elem_def elem_at_def form_list_def form_symbol_def form_int_def)
  from compile_fixed_point [OF table n run] have "compile 5 ?g unless_macro = Inr (?g, unless_macro)"
    by simp
  with run show ?thesis by simp
qed




subsection \<open>Destructive removal of the last element\<close>

text \<open>
  Claim C10. When the first operand of \<open>pop-back!\<close> is a node \<open>l\<close> whose \<open>v_list\<close> is
  \<open>xs @ [x]\<close>, the primitive returns \<open>x\<close> and the store differs from the one before in the
  node \<open>l\<close> only, whose \<open>v_list\<close> is now \<open>xs\<close>: the elements before the last and their
  order are kept, and since the node is changed in place and the frames are not touched,
  every binding of that node sees the shorter list. The call of the primitive through
  its function pointer gives the same. On an empty list the primitive is undefined.
\<close>

theorem pop_back_removes_last:
  assumes "node_at s l = Inr ln" and "v_list ln = xs @ [x]"
  shows "builtin_pop_backd h (l # rest) e s
           = Inr (x, s\<lparr>nodes := (nodes s)[l := ln\<lparr>v_list := xs\<rparr>]\<rparr>)
       \<and> call h ev ap k Ptr_builtin_pop_backd (Local (l # rest)) e s
           = Inr (x, s\<lparr>nodes := (nodes s)[l := ln\<lparr>v_list := xs\<rparr>]\<rparr>)
       \<and> (\<forall>p. p \<noteq> l \<longrightarrow> node_at (s\<lparr>nodes := (nodes s)[l := ln\<lparr>v_list := xs\<rparr>]\<rparr>) p = node_at s p)
       \<and> node_at (s\<lparr>nodes := (nodes s)[l := ln\<lparr>v_list := xs\<rparr>]\<rparr>) l = Inr (ln\<lparr>v_list := xs\<rparr>)"
proof -
  from assms(1) have l: "l < length (nodes s)" "nodes s ! l = ln"
    by (auto simp: node_at_def split: if_splits)
  have pop: "builtin_pop_backd h (l # rest) e s
           = Inr (x, s\<lparr>nodes := (nodes s)[l := ln\<lparr>v_list := xs\<rparr>]\<rparr>)"
    using assms by (simp add: builtin_pop_backd_def elem_def)
  moreover have "call h ev ap k Ptr_builtin_pop_backd (Local (l # rest)) e s
           = builtin_pop_backd h (l # rest) e s"
    by (simp add: call_def vec_def)
  moreover have "node_at (s\<lparr>nodes := (nodes s)[l := ln\<lparr>v_list := xs\<rparr>]\<rparr>) p = node_at s p"
    if "p \<noteq> l" for p
    using that by (simp add: node_at_def)
  moreover have "node_at (s\<lparr>nodes := (nodes s)[l := ln\<lparr>v_list := xs\<rparr>]\<rparr>) l = Inr (ln\<lparr>v_list := xs\<rparr>)"
    using l by (simp add: node_at_def)
  ultimately show ?thesis by simp
qed

lemma pop_back_empty:
  "node_at s l = Inr ln \<Longrightarrow> v_list ln = [] \<Longrightarrow> builtin_pop_backd h (l # rest) e s = Inl UB_index"
  by (simp add: builtin_pop_backd_def elem_def)

theorem pop_back_removes_last_witness:
  "\<forall>h. builtin_pop_backd h [5] 0 (static_init\<lparr>nodes := nodes static_init @ [Node_list [2, 3, 2]]\<rparr>)
     = Inr (2, static_init\<lparr>nodes := nodes static_init @ [Node_list [2, 3]]\<rparr>)"
  (is "\<forall>h. ?P h")
proof (rule allI)
  fix h
  let ?s = "static_init\<lparr>nodes := nodes static_init @ [Node_list [2, 3, 2]]\<rparr>"
  have n: "node_at ?s 5 = Inr (Node_list [2, 3, 2])"
    by (simp add: node_at_def static_init_def)
  have v: "v_list (Node_list [2, 3, 2]) = [2, 3] @ [2]"
    by (simp add: Node_list_def Node_nil_def)
  show "?P h"
    using pop_back_removes_last [OF n v, of h "[]" 0]
    by (simp add: static_init_def Node_list_def Node_nil_def)
qed


end
